theory Spec2Isabelle
  imports Complex_Main "HOL-Library.AList" "HOL-Library.Word"
begin

section \<open>The JSON value store\<close>

text \<open>
  Modelled from the spec: the structured value representation (the \<^verbatim>\<open>json_t\<close> nodes and the
  \<^verbatim>\<open>json_*\<close> operations that \<^verbatim>\<open>cfg.c\<close> calls) and the log sink \<^verbatim>\<open>w_log\<close> are external
  collaborators that are not part of \<^verbatim>\<open>src/cfg.c\<close>. The spec (section 3) gives the variants
  Null, Bool, Integer, Double, String, Array and Object; the operations are modelled under
  the names the source calls them by, with the meaning each name states.

  A \<^verbatim>\<open>json_t *\<close> is an address into an explicit store, or \<open>None\<close> for \<^verbatim>\<open>NULL\<close>. Arrays and
  objects hold the addresses of their children, so that a value reached through a layer
  and the value returned to a caller are the same node, as they are in the source.
  Reference counts are not modelled, so \<^verbatim>\<open>json_incref\<close> leaves no trace. The payload of an
  Integer (\<^verbatim>\<open>json_int_t\<close>) is carried as an \<open>int\<close> and that of a Double as a \<open>real\<close>; no
  arithmetic is ever done on either. Strings are C strings: they hold no NUL character, so
  \<^verbatim>\<open>strcmp\<close> returning 0 is equality.

  A number is an Integer or a Double: \<^verbatim>\<open>json_is_number\<close> holds of both variants, while
  \<^verbatim>\<open>json_is_integer\<close> and \<^verbatim>\<open>json_is_real\<close> hold of one each. A boolean is one of the two
  nodes true and false.
\<close>

type_synonym addr = nat

type_synonym json_ptr = "addr option"

datatype json_t =
    JSON_OBJECT "(string \<times> addr) list"
  | JSON_ARRAY "addr list"
  | JSON_STRING string
  | JSON_INTEGER int
  | JSON_REAL real
  | JSON_TRUE
  | JSON_FALSE
  | JSON_NULL

type_synonym json_heap = "json_t list"

definition node_at :: "json_heap \<Rightarrow> json_ptr \<Rightarrow> json_t option" where
  "node_at h p = (case p of None \<Rightarrow> None
                  | Some a \<Rightarrow> if a < length h then Some (h ! a) else None)"

definition json_is_object :: "json_heap \<Rightarrow> json_ptr \<Rightarrow> bool" where
  "json_is_object h p = (case node_at h p of Some (JSON_OBJECT kvs) \<Rightarrow> True | _ \<Rightarrow> False)"

definition json_is_array :: "json_heap \<Rightarrow> json_ptr \<Rightarrow> bool" where
  "json_is_array h p = (case node_at h p of Some (JSON_ARRAY es) \<Rightarrow> True | _ \<Rightarrow> False)"

definition json_is_string :: "json_heap \<Rightarrow> json_ptr \<Rightarrow> bool" where
  "json_is_string h p = (case node_at h p of Some (JSON_STRING s) \<Rightarrow> True | _ \<Rightarrow> False)"

definition json_is_integer :: "json_heap \<Rightarrow> json_ptr \<Rightarrow> bool" where
  "json_is_integer h p = (case node_at h p of Some (JSON_INTEGER i) \<Rightarrow> True | _ \<Rightarrow> False)"

definition json_is_real :: "json_heap \<Rightarrow> json_ptr \<Rightarrow> bool" where
  "json_is_real h p = (case node_at h p of Some (JSON_REAL d) \<Rightarrow> True | _ \<Rightarrow> False)"

definition json_is_true :: "json_heap \<Rightarrow> json_ptr \<Rightarrow> bool" where
  "json_is_true h p = (case node_at h p of Some JSON_TRUE \<Rightarrow> True | _ \<Rightarrow> False)"

definition json_is_false :: "json_heap \<Rightarrow> json_ptr \<Rightarrow> bool" where
  "json_is_false h p = (case node_at h p of Some JSON_FALSE \<Rightarrow> True | _ \<Rightarrow> False)"

definition json_is_number :: "json_heap \<Rightarrow> json_ptr \<Rightarrow> bool" where
  "json_is_number h p = (json_is_integer h p \<or> json_is_real h p)"

definition json_is_boolean :: "json_heap \<Rightarrow> json_ptr \<Rightarrow> bool" where
  "json_is_boolean h p = (json_is_true h p \<or> json_is_false h p)"

text \<open>The value readers give \<^verbatim>\<open>NULL\<close> or zero on a node of another variant.\<close>

definition json_string_value :: "json_heap \<Rightarrow> json_ptr \<Rightarrow> string option" where
  "json_string_value h p = (case node_at h p of Some (JSON_STRING s) \<Rightarrow> Some s | _ \<Rightarrow> None)"

definition json_integer_value :: "json_heap \<Rightarrow> json_ptr \<Rightarrow> int" where
  "json_integer_value h p = (case node_at h p of Some (JSON_INTEGER i) \<Rightarrow> i | _ \<Rightarrow> 0)"

definition json_real_value :: "json_heap \<Rightarrow> json_ptr \<Rightarrow> real" where
  "json_real_value h p = (case node_at h p of Some (JSON_REAL d) \<Rightarrow> d | _ \<Rightarrow> 0)"

definition json_object_get :: "json_heap \<Rightarrow> json_ptr \<Rightarrow> string \<Rightarrow> json_ptr" where
  "json_object_get h p key =
     (case node_at h p of Some (JSON_OBJECT kvs) \<Rightarrow> map_of kvs key | _ \<Rightarrow> None)"

definition json_array_size :: "json_heap \<Rightarrow> json_ptr \<Rightarrow> nat" where
  "json_array_size h p = (case node_at h p of Some (JSON_ARRAY es) \<Rightarrow> length es | _ \<Rightarrow> 0)"

definition json_array_get :: "json_heap \<Rightarrow> json_ptr \<Rightarrow> nat \<Rightarrow> json_ptr" where
  "json_array_get h p i =
     (case node_at h p of
        Some (JSON_ARRAY es) \<Rightarrow> if i < length es then Some (es ! i) else None
      | _ \<Rightarrow> None)"

text \<open>
  Constructors allocate the next free address. Allocation failure is not modelled
  (spec, section 7).
\<close>

definition json_alloc :: "json_heap \<Rightarrow> json_t \<Rightarrow> json_ptr \<times> json_heap" where
  "json_alloc h n = (Some (length h), h @ [n])"

definition json_object :: "json_heap \<Rightarrow> json_ptr \<times> json_heap" where
  "json_object h = json_alloc h (JSON_OBJECT [])"

definition json_array :: "json_heap \<Rightarrow> json_ptr \<times> json_heap" where
  "json_array h = json_alloc h (JSON_ARRAY [])"

definition json_string_nocheck :: "json_heap \<Rightarrow> string \<Rightarrow> json_ptr \<times> json_heap" where
  "json_string_nocheck h s = json_alloc h (JSON_STRING s)"

text \<open>
  The mutators write the container's node in place and leave the store as it is when
  they fail (a \<^verbatim>\<open>NULL\<close> argument, a container of the wrong variant, an index past the end,
  or a container inserted into itself).
\<close>

definition json_object_set_nocheck ::
  "json_heap \<Rightarrow> json_ptr \<Rightarrow> string \<Rightarrow> json_ptr \<Rightarrow> json_heap" where
  "json_object_set_nocheck h obj key val =
     (case (node_at h obj, obj, val) of
        (Some (JSON_OBJECT kvs), Some a, Some v) \<Rightarrow>
          if a = v then h else h[a := JSON_OBJECT (AList.update key v kvs)]
      | _ \<Rightarrow> h)"

definition json_array_append_new :: "json_heap \<Rightarrow> json_ptr \<Rightarrow> json_ptr \<Rightarrow> json_heap" where
  "json_array_append_new h arr val =
     (case (node_at h arr, arr, val) of
        (Some (JSON_ARRAY es), Some a, Some v) \<Rightarrow>
          if a = v then h else h[a := JSON_ARRAY (es @ [v])]
      | _ \<Rightarrow> h)"

definition json_array_insert_new ::
  "json_heap \<Rightarrow> json_ptr \<Rightarrow> nat \<Rightarrow> json_ptr \<Rightarrow> json_heap" where
  "json_array_insert_new h arr i val =
     (case (node_at h arr, arr, val) of
        (Some (JSON_ARRAY es), Some a, Some v) \<Rightarrow>
          if a = v \<or> i > length es then h
          else h[a := JSON_ARRAY (take i es @ [v] @ drop i es)]
      | _ \<Rightarrow> h)"

text \<open>
  \<^verbatim>\<open>json_pack\<close> with a format \<^verbatim>\<open>"[s...s]"\<close>: a new array, then one new string per argument,
  appended in order.
\<close>

fun json_pack_elems :: "json_heap \<Rightarrow> json_ptr \<Rightarrow> string list \<Rightarrow> json_heap" where
  "json_pack_elems h arr [] = h"
| "json_pack_elems h arr (s # ss) =
     (case json_string_nocheck h s of
        (v, h1) \<Rightarrow> json_pack_elems (json_array_append_new h1 arr v) arr ss)"

definition json_pack_strings :: "json_heap \<Rightarrow> string list \<Rightarrow> json_ptr \<times> json_heap" where
  "json_pack_strings h ss =
     (case json_array h of (arr, h1) \<Rightarrow> (arr, json_pack_elems h1 arr ss))"

text \<open>
  The list of strings an array node denotes in a store; \<open>None\<close> when the node is not an
  array or one of its elements is not a string.
\<close>

fun string_values :: "json_heap \<Rightarrow> addr list \<Rightarrow> string list option" where
  "string_values h [] = Some []"
| "string_values h (a # as) =
     (case json_string_value h (Some a) of
        None \<Rightarrow> None
      | Some s \<Rightarrow> (case string_values h as of None \<Rightarrow> None | Some ss \<Rightarrow> Some (s # ss)))"

definition json_array_strings :: "json_heap \<Rightarrow> json_ptr \<Rightarrow> string list option" where
  "json_array_strings h p =
     (case node_at h p of Some (JSON_ARRAY es) \<Rightarrow> string_values h es | _ \<Rightarrow> None)"


section \<open>Process-wide configuration state\<close>

text \<open>
  The two static layers \<^verbatim>\<open>global_cfg\<close> and \<^verbatim>\<open>arg_cfg\<close>, together with the store they point
  into. The reader-writer lock \<^verbatim>\<open>cfg_lock\<close> is not modelled: every operation is taken as
  one sequential step. A root is known here only by its \<^verbatim>\<open>config_file\<close> field.
\<close>

record cfg_state =
  heap :: json_heap
  global_cfg :: json_ptr
  arg_cfg :: json_ptr

record w_root =
  config_file :: json_ptr

text \<open>
  \<^verbatim>\<open>w_log\<close> at level \<^verbatim>\<open>W_LOG_FATAL\<close> does not return (spec, sections 4.3 and 7): the
  caller ends in the error value, which carries the logged line without its newline, and
  the statements that follow such a call in the source are never reached.
\<close>

datatype error = Fatal string

definition cfg_set_arg :: "cfg_state \<Rightarrow> string \<Rightarrow> json_ptr \<Rightarrow> cfg_state" where
  "cfg_set_arg s name val =
     (let s1 = (if arg_cfg s = None
                then (case json_object (heap s) of (ob, h1) \<Rightarrow> s\<lparr>heap := h1, arg_cfg := ob\<rparr>)
                else s)
      in s1\<lparr>heap := json_object_set_nocheck (heap s1) (arg_cfg s1) name val\<rparr>)"

definition cfg_set_global :: "cfg_state \<Rightarrow> string \<Rightarrow> json_ptr \<Rightarrow> cfg_state" where
  "cfg_set_global s name val =
     (let s1 = (if global_cfg s = None
                then (case json_object (heap s) of (ob, h1) \<Rightarrow> s\<lparr>heap := h1, global_cfg := ob\<rparr>)
                else s)
      in s1\<lparr>heap := json_object_set_nocheck (heap s1) (global_cfg s1) name val\<rparr>)"

definition cfg_get_raw :: "cfg_state \<Rightarrow> string \<Rightarrow> json_ptr \<Rightarrow> json_ptr" where
  "cfg_get_raw s name optr =
     (if optr \<noteq> None then json_object_get (heap s) optr name else None)"

definition cfg_get_json :: "cfg_state \<Rightarrow> w_root option \<Rightarrow> string \<Rightarrow> json_ptr" where
  "cfg_get_json s rt name =
     (let val = (case rt of
                   None \<Rightarrow> None
                 | Some r \<Rightarrow> if config_file r \<noteq> None
                             then json_object_get (heap s) (config_file r) name
                             else None);
          val = (if val = None then cfg_get_raw s name (arg_cfg s) else val);
          val = (if val = None then cfg_get_raw s name (global_cfg s) else val)
      in val)"

definition cfg_get_string ::
  "cfg_state \<Rightarrow> w_root option \<Rightarrow> string \<Rightarrow> string option \<Rightarrow> error + string option" where
  "cfg_get_string s rt name defval =
     (let val = cfg_get_json s rt name in
      if val \<noteq> None then
        (if \<not> json_is_string (heap s) val
         then Inl (Fatal (''Expected config value '' @ name @ '' to be a string''))
         else Inr (json_string_value (heap s) val))
      else Inr defval)"

text \<open>
  The loop counter of \<^verbatim>\<open>is_array_of_strings\<close> is a \<^verbatim>\<open>uint32_t\<close>, compared with the array's
  size and used as the index: a 32-bit word whose increment wraps. On an array of \<open>2^32\<close>
  or more elements that are all strings the counter returns to 0 before it reaches the
  size, and the loop does not end. The loop is therefore a partial function: \<open>None\<close> is
  a call that does not return.
\<close>

partial_function (option) is_array_of_strings_loop ::
  "json_heap \<Rightarrow> json_ptr \<Rightarrow> 32 word \<Rightarrow> bool option" where
  "is_array_of_strings_loop h ref i =
     (if unat i < json_array_size h ref then
        (if \<not> json_is_string h (json_array_get h ref (unat i)) then Some False
         else is_array_of_strings_loop h ref (i + 1))
      else Some True)"

definition is_array_of_strings :: "json_heap \<Rightarrow> json_ptr \<Rightarrow> bool option" where
  "is_array_of_strings h ref =
     (if \<not> json_is_array h ref then Some False else is_array_of_strings_loop h ref 0)"

text \<open>
  \<^verbatim>\<open>prepend_watchmanconfig_to_array\<close> is only called on an array of strings, where
  \<^verbatim>\<open>json_string_value\<close> of element 0 is not \<^verbatim>\<open>NULL\<close>.
\<close>

definition prepend_watchmanconfig_to_array :: "json_heap \<Rightarrow> json_ptr \<Rightarrow> json_heap" where
  "prepend_watchmanconfig_to_array h ref =
     (if json_array_size h ref = 0 then
        (case json_string_nocheck h ''.watchmanconfig'' of
           (v, h1) \<Rightarrow> json_array_append_new h1 ref v)
      else
        (let val = json_string_value h (json_array_get h ref 0) in
         if val = Some ''.watchmanconfig'' then h
         else (case json_string_nocheck h ''.watchmanconfig'' of
                 (v, h1) \<Rightarrow> json_array_insert_new h1 ref 0 v)))"

definition cfg_get_int :: "cfg_state \<Rightarrow> w_root option \<Rightarrow> string \<Rightarrow> int \<Rightarrow> error + int" where
  "cfg_get_int s rt name defval =
     (let val = cfg_get_json s rt name in
      if val \<noteq> None then
        (if \<not> json_is_integer (heap s) val
         then Inl (Fatal (''Expected config value '' @ name @ '' to be an integer''))
         else Inr (json_integer_value (heap s) val))
      else Inr defval)"

definition cfg_get_bool :: "cfg_state \<Rightarrow> w_root option \<Rightarrow> string \<Rightarrow> bool \<Rightarrow> error + bool" where
  "cfg_get_bool s rt name defval =
     (let val = cfg_get_json s rt name in
      if val \<noteq> None then
        (if \<not> json_is_boolean (heap s) val
         then Inl (Fatal (''Expected config value '' @ name @ '' to be a boolean''))
         else Inr (json_is_true (heap s) val))
      else Inr defval)"

definition cfg_get_double :: "cfg_state \<Rightarrow> w_root option \<Rightarrow> string \<Rightarrow> real \<Rightarrow> error + real" where
  "cfg_get_double s rt name defval =
     (let val = cfg_get_json s rt name in
      if val \<noteq> None then
        (if \<not> json_is_number (heap s) val
         then Inl (Fatal (''Expected config value '' @ name @ '' to be a number''))
         else Inr (json_real_value (heap s) val))
      else Inr defval)"

text \<open>
  \<^verbatim>\<open>cfg_compute_root_files\<close> returns the array, the value left in \<^verbatim>\<open>*enforcing\<close>, and the
  state after the call. It does not return (\<open>None\<close>) when \<^verbatim>\<open>is_array_of_strings\<close> does not.
\<close>

definition cfg_compute_root_files ::
  "cfg_state \<Rightarrow> (error + (json_ptr \<times> bool \<times> cfg_state)) option" where
  "cfg_compute_root_files s =
     (case cfg_get_bool s None ''_ignore_watchmanconfig'' False of
        Inl e \<Rightarrow> Some (Inl e)
      | Inr ignore_watchmanconfig \<Rightarrow>
          (case (let ref = cfg_get_json s None ''enforce_root_files'' in
                 if ref \<noteq> None then
                   (if \<not> json_is_boolean (heap s) ref
                    then Inl (Fatal ''Expected config value enforce_root_files to be boolean'')
                    else Inr (json_is_true (heap s) ref))
                 else Inr False) of
             Inl e \<Rightarrow> Some (Inl e)
           | Inr enforcing \<Rightarrow>
               (let ref = cfg_get_json s None ''root_files'' in
                if ref \<noteq> None then
                  (case is_array_of_strings (heap s) ref of
                     None \<Rightarrow> None
                   | Some is_strings \<Rightarrow>
                       if \<not> is_strings
                       then Some (Inl (Fatal
                              ''global config root_files must be an array of strings''))
                       else Some (Inr (ref, enforcing,
                              s\<lparr>heap := prepend_watchmanconfig_to_array (heap s) ref\<rparr>)))
                else
                  (let ref = cfg_get_json s None ''root_restrict_files'' in
                   if ref \<noteq> None then
                     (case is_array_of_strings (heap s) ref of
                        None \<Rightarrow> None
                      | Some is_strings \<Rightarrow>
                          if \<not> is_strings
                          then Some (Inl (Fatal (''deprecated global config root_restrict_files ''
                                                @ ''must be an array of strings'')))
                          else Some (Inr (ref, True,
                                 if \<not> ignore_watchmanconfig
                                 then s\<lparr>heap := prepend_watchmanconfig_to_array (heap s) ref\<rparr>
                                 else s)))
                   else
                     (if \<not> ignore_watchmanconfig then
                        (case json_pack_strings (heap s)
                                [''.watchmanconfig'', ''.hg'', ''.git'', ''.svn''] of
                           (arr, h1) \<Rightarrow> Some (Inr (arr, enforcing, s\<lparr>heap := h1\<rparr>)))
                      else
                        (case json_pack_strings (heap s) [''.hg'', ''.git'', ''.svn''] of
                           (arr, h1) \<Rightarrow> Some (Inr (arr, enforcing, s\<lparr>heap := h1\<rparr>))))))))"

definition cfg_get_trouble_url :: "cfg_state \<Rightarrow> error + string option" where
  "cfg_get_trouble_url s =
     cfg_get_string s None ''troubleshooting_url''
       (Some ''https://facebook.github.io/watchman/docs/troubleshooting.html'')"


section \<open>Reading a result\<close>

text \<open>
  What the spec asks of an array handed to \<^verbatim>\<open>prepend_watchmanconfig_to_array\<close>: the marker
  is the element at index 0 afterwards; only index 0 is looked at, and an empty array
  becomes the singleton.
\<close>

definition spec_ensure_watchmanconfig_first :: "string list \<Rightarrow> string list" where
  "spec_ensure_watchmanconfig_first xs =
     (case xs of [] \<Rightarrow> [''.watchmanconfig'']
      | x # _ \<Rightarrow> if x = ''.watchmanconfig'' then xs else ''.watchmanconfig'' # xs)"


text \<open>
  What a call of \<^verbatim>\<open>cfg_compute_root_files\<close> hands back, read in the store it leaves: the
  strings of the returned array, and the value of \<^verbatim>\<open>*enforcing\<close>.
\<close>

definition returned_markers ::
  "(error + (json_ptr \<times> bool \<times> cfg_state)) option \<Rightarrow> string list option" where
  "returned_markers res =
     (case res of
        None \<Rightarrow> None
      | Some (Inl e) \<Rightarrow> None
      | Some (Inr (ref, enforcing, s')) \<Rightarrow> json_array_strings (heap s') ref)"

definition returned_enforcing ::
  "(error + (json_ptr \<times> bool \<times> cfg_state)) option \<Rightarrow> bool option" where
  "returned_enforcing res =
     (case res of
        None \<Rightarrow> None
      | Some (Inl e) \<Rightarrow> None
      | Some (Inr (ref, enforcing, s')) \<Rightarrow> Some enforcing)"


section \<open>Example states\<close>

text \<open>
  \<open>st_layers\<close>: a root view (node 0), an argument layer (node 1) and a global layer
  (node 2) that all hold the key \<open>k\<close>; the argument layer holds \<open>n\<close> as a JSON null.
\<close>

definition st_layers :: cfg_state where
  "st_layers = \<lparr>heap = [JSON_OBJECT [(''k'', 3)], JSON_OBJECT [(''k'', 4), (''n'', 6)],
                         JSON_OBJECT [(''k'', 5), (''n'', 4), (''g'', 5)],
                         JSON_INTEGER 1, JSON_INTEGER 2, JSON_INTEGER 3, JSON_NULL],
                 global_cfg = Some 2, arg_cfg = Some 1\<rparr>"

definition root_layers :: w_root where
  "root_layers = \<lparr>config_file = Some 0\<rparr>"

text \<open>\<open>st_typed\<close>: a global layer with one value of each scalar variant.\<close>

definition st_typed :: cfg_state where
  "st_typed = \<lparr>heap = [JSON_OBJECT [(''name'', 1), (''count'', 2), (''ratio'', 3), (''flag'', 4)],
                        JSON_STRING ''abc'', JSON_INTEGER 5, JSON_REAL 2, JSON_TRUE],
                global_cfg = Some 0, arg_cfg = None\<rparr>"

text \<open>\<open>st_int_arg\<close>: an argument layer that sets \<open>timeout\<close> to the integer 7.\<close>

definition st_int_arg :: cfg_state where
  "st_int_arg = \<lparr>heap = [JSON_INTEGER 7, JSON_OBJECT [(''timeout'', 0)]],
                  global_cfg = None, arg_cfg = Some 1\<rparr>"

text \<open>
  \<open>st_root_files\<close>: the global layer sets \<open>root_files\<close> to \<open>["foo"]\<close> and both flags to
  true.
\<close>

definition st_root_files :: cfg_state where
  "st_root_files =
     \<lparr>heap = [JSON_OBJECT [(''root_files'', 1), (''_ignore_watchmanconfig'', 3),
                            (''enforce_root_files'', 3)],
              JSON_ARRAY [2], JSON_STRING ''foo'', JSON_TRUE],
      global_cfg = Some 0, arg_cfg = None\<rparr>"

text \<open>
  \<open>st_legacy\<close>: the global layer sets \<open>root_restrict_files\<close> to \<open>["bar"]\<close> and
  \<open>enforce_root_files\<close> to false.
\<close>

definition st_legacy :: cfg_state where
  "st_legacy =
     \<lparr>heap = [JSON_OBJECT [(''root_restrict_files'', 1), (''enforce_root_files'', 3)],
              JSON_ARRAY [2], JSON_STRING ''bar'', JSON_FALSE],
      global_cfg = Some 0, arg_cfg = None\<rparr>"

text \<open>\<open>st_unset\<close>: nothing is configured.\<close>

definition st_unset :: cfg_state where
  "st_unset = \<lparr>heap = [], global_cfg = None, arg_cfg = None\<rparr>"

text \<open>
  \<open>st_optout_global\<close>: the global layer sets \<open>_ignore_watchmanconfig\<close> to false.
  \<open>st_optout_arg\<close>: the same state after \<^verbatim>\<open>cfg_set_arg\<close> has set the key to true in the
  argument layer.
\<close>

definition st_optout_global :: cfg_state where
  "st_optout_global =
     \<lparr>heap = [JSON_OBJECT [(''_ignore_watchmanconfig'', 1)], JSON_FALSE, JSON_TRUE],
      global_cfg = Some 0, arg_cfg = None\<rparr>"

definition st_optout_arg :: cfg_state where
  "st_optout_arg = cfg_set_arg st_optout_global ''_ignore_watchmanconfig'' (Some 2)"

text \<open>
  \<open>st_shared\<close>: one array \<open>["foo"]\<close> (node 0) handed to \<^verbatim>\<open>cfg_set_global\<close> as \<open>root_files\<close>
  and to \<^verbatim>\<open>cfg_set_arg\<close> as \<open>ignore_vcs\<close>; both layers hold the same node.
  \<open>st_shared_after\<close> is the state one call of \<^verbatim>\<open>cfg_compute_root_files\<close> leaves.
\<close>

definition st_shared_base :: cfg_state where
  "st_shared_base = \<lparr>heap = [JSON_ARRAY [1], JSON_STRING ''foo''],
                     global_cfg = None, arg_cfg = None\<rparr>"

definition st_shared :: cfg_state where
  "st_shared = cfg_set_arg (cfg_set_global st_shared_base ''root_files'' (Some 0))
                           ''ignore_vcs'' (Some 0)"

definition st_shared_after :: cfg_state where
  "st_shared_after =
     \<lparr>heap = [JSON_ARRAY [4, 1], JSON_STRING ''foo'', JSON_OBJECT [(''root_files'', 0)],
              JSON_OBJECT [(''ignore_vcs'', 0)], JSON_STRING ''.watchmanconfig''],
      global_cfg = Some 2, arg_cfg = Some 3\<rparr>"



section \<open>The store under allocation and update\<close>

lemma node_at_None [simp]: "node_at h None = None"
  by (simp add: node_at_def)

lemma node_at_alloc: "node_at (h @ [n]) (Some a) = (if a = length h then Some n else node_at h (Some a))"
  by (auto simp: node_at_def nth_append)

lemma node_at_update:
  "node_at (h[r := n]) (Some a) = (if a = r \<and> r < length h then Some n else node_at h (Some a))"
  by (auto simp: node_at_def)

lemma node_at_valid: "node_at h (Some a) = Some n \<Longrightarrow> a < length h"
  by (simp add: node_at_def split: if_splits)

lemma json_string_value_None: "(json_string_value h p = None) = (\<not> json_is_string h p)"
  by (simp add: json_is_string_def json_string_value_def split: option.splits json_t.splits)

lemma string_values_None:
  "(string_values h es = None) = (\<exists>a \<in> set es. \<not> json_is_string h (Some a))"
proof (induction es)
  case Nil
  show ?case by simp
next
  case (Cons a es)
  show ?case
  proof (cases "json_string_value h (Some a)")
    case None
    then show ?thesis using json_string_value_None[of h "Some a"] by simp
  next
    case (Some x)
    then have "json_is_string h (Some a)" using json_string_value_None[of h "Some a"] by simp
    with Some Cons show ?thesis by (cases "string_values h es") simp_all
  qed
qed

lemma string_values_iff:
  "(string_values h es \<noteq> None) = (\<forall>a \<in> set es. json_is_string h (Some a))"
  by (metis string_values_None)

lemma string_values_cong:
  "\<forall>a \<in> set es. node_at h' (Some a) = node_at h (Some a) \<Longrightarrow> string_values h' es = string_values h es"
  by (induction es) (auto simp: json_string_value_def split: option.splits)

lemma string_values_length: "string_values h es = Some xs \<Longrightarrow> length xs = length es"
  by (induction es arbitrary: xs) (auto split: option.splits)

lemma json_array_strings_size:
  "json_array_strings h ref = Some xs \<Longrightarrow> json_array_size h ref = length xs"
  by (auto simp: json_array_strings_def json_array_size_def string_values_length
      split: option.splits json_t.splits)

lemma unat_succ_le: "unat (i + 1 :: 32 word) \<le> Suc (unat i)"
  by (simp add: unat_word_ariths)

lemma loop_bounded:
  assumes "node_at h ref = Some (JSON_ARRAY es)" and "length es < 2 ^ 32"
  shows "is_array_of_strings_loop h ref i
         = Some (\<forall>k. unat i \<le> k \<and> k < length es \<longrightarrow> json_is_string h (Some (es ! k)))"
proof (induction "length es - unat i" arbitrary: i rule: less_induct)
  case less
  show ?case
  proof (cases "unat i < length es")
    case False
    with assms(1) show ?thesis
      by (subst is_array_of_strings_loop.simps) (auto simp: json_array_size_def)
  next
    case True
    note lt = this
    have "unat i + unat (1 :: 32 word) < 2 ^ LENGTH(32)" using lt assms(2) by simp
    then have suc: "unat (i + 1) = Suc (unat i)" by (simp add: unat_add_lem[THEN iffD1])
    show ?thesis
    proof (cases "json_is_string h (Some (es ! unat i))")
      case False
      with lt assms(1) show ?thesis
        by (subst is_array_of_strings_loop.simps)
           (auto simp: json_array_size_def json_array_get_def)
    next
      case True
      from lt True assms(1)
      have "is_array_of_strings_loop h ref i = is_array_of_strings_loop h ref (i + 1)"
        by (subst is_array_of_strings_loop.simps)
           (simp add: json_array_size_def json_array_get_def)
      also have "\<dots> = Some (\<forall>k. unat (i + 1) \<le> k \<and> k < length es
                                \<longrightarrow> json_is_string h (Some (es ! k)))"
        using less[of "i + 1"] lt suc by simp
      also have "(\<forall>k. unat (i + 1) \<le> k \<and> k < length es \<longrightarrow> json_is_string h (Some (es ! k)))
               = (\<forall>k. unat i \<le> k \<and> k < length es \<longrightarrow> json_is_string h (Some (es ! k)))"
        using True suc by (metis Suc_leD le_antisym not_less_eq_eq)
      finally show ?thesis .
    qed
  qed
qed

lemma loop_returned_True:
  assumes "is_array_of_strings_loop h ref i = Some y"
  shows "node_at h ref = Some (JSON_ARRAY es) \<longrightarrow> y \<longrightarrow>
         (\<forall>k. unat i \<le> k \<and> k < length es \<longrightarrow> json_is_string h (Some (es ! k)))"
proof (rule is_array_of_strings_loop.raw_induct
    [where P = "\<lambda>h ref i y. node_at h ref = Some (JSON_ARRAY es) \<longrightarrow> y \<longrightarrow>
         (\<forall>k. unat i \<le> k \<and> k < length es \<longrightarrow> json_is_string h (Some (es ! k)))",
     OF _ assms])
  fix f :: "json_heap \<Rightarrow> json_ptr \<Rightarrow> 32 word \<Rightarrow> bool option" and h ref i y
  assume ih: "\<And>h ref i y. f h ref i = Some y \<Longrightarrow>
      node_at h ref = Some (JSON_ARRAY es) \<longrightarrow> y \<longrightarrow>
      (\<forall>k. unat i \<le> k \<and> k < length es \<longrightarrow> json_is_string h (Some (es ! k)))"
    and body: "(if unat i < json_array_size h ref
         then if \<not> json_is_string h (json_array_get h ref (unat i))
              then Some False else f h ref (i + 1)
         else Some True) = Some y"
  show "node_at h ref = Some (JSON_ARRAY es) \<longrightarrow> y \<longrightarrow>
      (\<forall>k. unat i \<le> k \<and> k < length es \<longrightarrow> json_is_string h (Some (es ! k)))"
  proof (intro impI allI)
    fix k
    assume n: "node_at h ref = Some (JSON_ARRAY es)" and y: y
      and k: "unat i \<le> k \<and> k < length es"
    then have lt: "unat i < json_array_size h ref" by (simp add: json_array_size_def)
    have s: "json_is_string h (json_array_get h ref (unat i))"
      using body lt y by (auto split: if_splits)
    then have rec: "f h ref (i + 1) = Some y" using body lt by simp
    show "json_is_string h (Some (es ! k))"
    proof (cases "k = unat i")
      case True
      with s n k show ?thesis by (simp add: json_array_get_def)
    next
      case False
      with k unat_succ_le[of i] have "unat (i + 1) \<le> k \<and> k < length es" by simp
      with ih[OF rec] n y show ?thesis by blast
    qed
  qed
qed

lemma string_values_all:
  "(\<forall>k < length es. json_is_string h (Some (es ! k))) = (string_values h es \<noteq> None)"
  unfolding string_values_iff by (metis in_set_conv_nth)

lemma is_array_of_strings_bounded:
  assumes "json_array_size h ref < 2 ^ 32"
  shows "is_array_of_strings h ref = Some (json_array_strings h ref \<noteq> None)"
proof (cases "node_at h ref")
  case None
  then show ?thesis by (simp add: is_array_of_strings_def json_is_array_def json_array_strings_def)
next
  case (Some n)
  show ?thesis
  proof (cases "\<exists>es. n = JSON_ARRAY es")
    case False
    with Some show ?thesis
      by (cases n) (simp_all add: is_array_of_strings_def json_is_array_def json_array_strings_def)
  next
    case True
    then obtain es where n: "n = JSON_ARRAY es" by blast
    have len: "length es < 2 ^ 32" using assms Some n by (simp add: json_array_size_def)
    have "is_array_of_strings h ref
          = Some (\<forall>k. k < length es \<longrightarrow> json_is_string h (Some (es ! k)))"
      using Some n loop_bounded[OF _ len, of h ref 0]
      by (simp add: is_array_of_strings_def json_is_array_def)
    then show ?thesis using Some n string_values_all[of es h]
      by (simp add: json_array_strings_def)
  qed
qed

lemma is_array_of_strings_returned_True:
  assumes "is_array_of_strings h ref = Some True"
  shows "json_array_strings h ref \<noteq> None"
proof -
  from assms obtain es where n: "node_at h ref = Some (JSON_ARRAY es)"
    and l: "is_array_of_strings_loop h ref 0 = Some True"
    by (auto simp: is_array_of_strings_def json_is_array_def split: if_splits option.splits json_t.splits)
  from loop_returned_True[OF l, of es] n
  have "\<forall>k < length es. json_is_string h (Some (es ! k))" by simp
  then show ?thesis using n string_values_all[of es h] by (simp add: json_array_strings_def)
qed

lemma node_at_fresh: "node_at h (Some (length h)) = None"
  by (simp add: node_at_def)

lemma prepend_heap:
  assumes "node_at h (Some r) = Some (JSON_ARRAY es)"
  shows "prepend_watchmanconfig_to_array h (Some r) =
     (if es \<noteq> [] \<and> json_string_value h (Some (hd es)) = Some ''.watchmanconfig'' then h
      else (h @ [JSON_STRING ''.watchmanconfig''])[r := JSON_ARRAY (length h # es)])"
proof -
  have r: "r < length h" using assms by (rule node_at_valid)
  then have n1: "node_at (h @ [JSON_STRING ''.watchmanconfig'']) (Some r) = Some (JSON_ARRAY es)"
    using assms by (simp add: node_at_alloc)
  show ?thesis
  proof (cases es)
    case Nil
    with assms n1 r show ?thesis
      by (simp add: prepend_watchmanconfig_to_array_def json_array_size_def
          json_string_nocheck_def json_alloc_def json_array_append_new_def)
  next
    case (Cons e es')
    with assms n1 r show ?thesis
      by (simp add: prepend_watchmanconfig_to_array_def json_array_size_def json_array_get_def
          json_string_nocheck_def json_alloc_def json_array_insert_new_def)
  qed
qed

lemma string_values_hd:
  "string_values h es = Some xs \<Longrightarrow> es \<noteq> [] \<Longrightarrow> json_string_value h (Some (hd es)) = Some (hd xs)"
  by (cases es) (auto split: option.splits)

lemma string_values_Nil: "string_values h es = Some xs \<Longrightarrow> (xs = []) = (es = [])"
  by (cases es) (auto split: option.splits)

lemma prepend_strings:
  assumes "json_array_strings h ref = Some xs"
  shows "json_array_strings (prepend_watchmanconfig_to_array h ref) ref =
         Some (spec_ensure_watchmanconfig_first xs)"
proof -
  from assms obtain r es where ref: "ref = Some r" and n: "node_at h (Some r) = Some (JSON_ARRAY es)"
    and sv: "string_values h es = Some xs"
    by (cases ref) (auto simp: json_array_strings_def split: option.splits json_t.splits)
  have r: "r < length h" using n by (rule node_at_valid)
  let ?wc = "''.watchmanconfig''"
  let ?h' = "(h @ [JSON_STRING ?wc])[r := JSON_ARRAY (length h # es)]"
  have strs: "\<forall>a \<in> set es. json_is_string h (Some a)"
    using sv string_values_iff[of h es] by simp
  have same: "\<forall>a \<in> set es. node_at ?h' (Some a) = node_at h (Some a)"
  proof
    fix a assume "a \<in> set es"
    with strs have s: "json_is_string h (Some a)" by blast
    then have "a < length h" by (auto simp: json_is_string_def node_at_def split: if_splits)
    moreover have "a \<noteq> r" using s n by (auto simp: json_is_string_def)
    ultimately show "node_at ?h' (Some a) = node_at h (Some a)"
      by (simp add: node_at_update node_at_alloc)
  qed
  have new: "json_array_strings ?h' (Some r) = Some (?wc # xs)"
    using r sv string_values_cong[OF same]
    by (simp add: json_array_strings_def node_at_update node_at_alloc json_string_value_def)
  show ?thesis
  proof (cases "es \<noteq> [] \<and> json_string_value h (Some (hd es)) = Some ?wc")
    case True
    then have "xs \<noteq> []" "hd xs = ?wc"
      using string_values_Nil[OF sv] string_values_hd[OF sv] by auto
    then have "spec_ensure_watchmanconfig_first xs = xs"
      by (cases xs) (simp_all add: spec_ensure_watchmanconfig_first_def)
    from True have "prepend_watchmanconfig_to_array h (Some r) = h"
      unfolding prepend_heap[OF n] by (rule if_P)
    with assms \<open>spec_ensure_watchmanconfig_first xs = xs\<close> show ?thesis by (simp add: ref)
  next
    case False
    then have "xs = [] \<or> hd xs \<noteq> ?wc"
      using string_values_Nil[OF sv] string_values_hd[OF sv] by auto
    then have "spec_ensure_watchmanconfig_first xs = ?wc # xs"
      by (cases xs) (auto simp: spec_ensure_watchmanconfig_first_def)
    moreover from False have "prepend_watchmanconfig_to_array h (Some r) = ?h'"
      unfolding prepend_heap[OF n] by (rule if_not_P)
    ultimately show ?thesis using new by (simp add: ref)
  qed
qed

lemma prepend_frame:
  assumes "node_at h ref = Some (JSON_ARRAY es)"
  shows "node_at (prepend_watchmanconfig_to_array h ref) p = node_at h p
       \<or> (p = ref \<and> (\<exists>es'. node_at (prepend_watchmanconfig_to_array h ref) p = Some (JSON_ARRAY es')))
       \<or> (node_at h p = None \<and> node_at (prepend_watchmanconfig_to_array h ref) p = Some (JSON_STRING ''.watchmanconfig''))"
proof -
  from assms obtain r where ref: "ref = Some r" by (cases ref) simp_all
  have r: "r < length h" using assms ref node_at_valid by blast
  show ?thesis
  proof (cases p)
    case None then show ?thesis by simp
  next
    case (Some a)
    with r assms show ?thesis
      unfolding ref prepend_heap[OF assms[unfolded ref]]
      by (auto simp: node_at_update node_at_alloc node_at_fresh)
  qed
qed

lemma prepend_object_get:
  assumes "node_at h ref = Some (JSON_ARRAY es)"
  shows "json_object_get (prepend_watchmanconfig_to_array h ref) p key = json_object_get h p key"
  using prepend_frame[OF assms, of p] assms by (auto simp: json_object_get_def)

lemma prepend_is_true:
  assumes "node_at h ref = Some (JSON_ARRAY es)"
  shows "json_is_true (prepend_watchmanconfig_to_array h ref) p = json_is_true h p"
  using prepend_frame[OF assms, of p] assms by (auto simp: json_is_true_def)

lemma prepend_is_false:
  assumes "node_at h ref = Some (JSON_ARRAY es)"
  shows "json_is_false (prepend_watchmanconfig_to_array h ref) p = json_is_false h p"
  using prepend_frame[OF assms, of p] assms by (auto simp: json_is_false_def)

lemma json_object_get_None: "json_object_get h None key = None"
  by (simp add: json_object_get_def)

lemma cfg_get_json_unfold:
  "cfg_get_json s rt name =
     (case (case rt of None \<Rightarrow> None | Some r \<Rightarrow> json_object_get (heap s) (config_file r) name) of
        Some v \<Rightarrow> Some v
      | None \<Rightarrow> (case json_object_get (heap s) (arg_cfg s) name of
                  Some v \<Rightarrow> Some v
                | None \<Rightarrow> json_object_get (heap s) (global_cfg s) name))"
proof (cases rt)
  case None
  then show ?thesis
    by (cases "arg_cfg s"; cases "global_cfg s")
       (auto simp: cfg_get_json_def cfg_get_raw_def json_object_get_None split: option.splits)
next
  case (Some r)
  then show ?thesis
    by (cases "config_file r"; cases "arg_cfg s"; cases "global_cfg s")
       (auto simp: cfg_get_json_def cfg_get_raw_def json_object_get_None split: option.splits)
qed

lemma prepend_cfg_get_json:
  assumes "node_at (heap s) ref = Some (JSON_ARRAY es)"
  shows "cfg_get_json (s\<lparr>heap := prepend_watchmanconfig_to_array (heap s) ref\<rparr>) rt name = cfg_get_json s rt name"
  by (simp add: cfg_get_json_unfold prepend_object_get[OF assms] cong: option.case_cong)

lemma prepend_cfg_get_bool:
  assumes "node_at (heap s) ref = Some (JSON_ARRAY es)"
  shows "cfg_get_bool (s\<lparr>heap := prepend_watchmanconfig_to_array (heap s) ref\<rparr>) rt name d = cfg_get_bool s rt name d"
  by (simp add: cfg_get_bool_def prepend_cfg_get_json[OF assms] json_is_boolean_def Let_def
      prepend_is_true[OF assms] prepend_is_false[OF assms])

lemma string_values_append:
  "string_values h (es @ es') =
     (case string_values h es of None \<Rightarrow> None
      | Some xs \<Rightarrow> (case string_values h es' of None \<Rightarrow> None | Some ys \<Rightarrow> Some (xs @ ys)))"
  by (induction es) (auto split: option.splits)

lemma string_values_stable:
  assumes "string_values h es = Some xs" and "node_at h (Some a) = Some (JSON_ARRAY es0)"
  shows "string_values ((h @ [n])[a := m]) es = Some xs"
proof -
  have strs: "\<forall>e \<in> set es. json_is_string h (Some e)"
    using assms(1) string_values_iff[of h es] by simp
  have "\<forall>e \<in> set es. node_at ((h @ [n])[a := m]) (Some e) = node_at h (Some e)"
  proof
    fix e assume "e \<in> set es"
    with strs have s: "json_is_string h (Some e)" by blast
    then have "e < length h" by (auto simp: json_is_string_def node_at_def split: if_splits)
    moreover have "e \<noteq> a" using s assms(2) by (auto simp: json_is_string_def)
    ultimately show "node_at ((h @ [n])[a := m]) (Some e) = node_at h (Some e)"
      by (simp add: node_at_update node_at_alloc)
  qed
  from string_values_cong[OF this] assms(1) show ?thesis by simp
qed

lemma json_pack_elems_strings:
  assumes "node_at h (Some a) = Some (JSON_ARRAY es)" and "string_values h es = Some xs"
  shows "json_array_strings (json_pack_elems h (Some a) ss) (Some a) = Some (xs @ ss)"
  using assms
proof (induction ss arbitrary: h es xs)
  case Nil
  then show ?case by (simp add: json_array_strings_def)
next
  case (Cons s ss)
  have a: "a < length h" using Cons.prems(1) by (rule node_at_valid)
  let ?h2 = "(h @ [JSON_STRING s])[a := JSON_ARRAY (es @ [length h])]"
  have step: "json_array_append_new (h @ [JSON_STRING s]) (Some a) (Some (length h)) = ?h2"
    using a Cons.prems(1) by (simp add: json_array_append_new_def node_at_alloc)
  have n2: "node_at ?h2 (Some a) = Some (JSON_ARRAY (es @ [length h]))"
    using a by (simp add: node_at_update)
  have "string_values ?h2 es = Some xs"
    by (rule string_values_stable[OF Cons.prems(2) Cons.prems(1)])
  moreover have "string_values ?h2 [length h] = Some [s]"
    using a by (simp add: json_string_value_def node_at_update node_at_alloc)
  ultimately have sv2: "string_values ?h2 (es @ [length h]) = Some (xs @ [s])"
    by (simp add: string_values_append)
  from Cons.IH[OF n2 sv2] step show ?case
    by (simp add: json_string_nocheck_def json_alloc_def)
qed

lemma json_pack_strings_result:
  "fst (json_pack_strings h ss) = Some (length h)
   \<and> json_array_strings (snd (json_pack_strings h ss)) (Some (length h)) = Some ss"
proof -
  have "node_at (h @ [JSON_ARRAY []]) (Some (length h)) = Some (JSON_ARRAY [])"
    by (simp add: node_at_alloc)
  from json_pack_elems_strings[OF this, of "[]" ss] show ?thesis
    by (simp add: json_pack_strings_def json_array_def json_alloc_def)
qed

lemma prepend_fixed:
  assumes "json_array_strings h ref = Some (''.watchmanconfig'' # ys)"
  shows "prepend_watchmanconfig_to_array h ref = h"
proof -
  from assms obtain r es where ref: "ref = Some r" and n: "node_at h (Some r) = Some (JSON_ARRAY es)"
    and sv: "string_values h es = Some (''.watchmanconfig'' # ys)"
    by (cases ref) (auto simp: json_array_strings_def split: option.splits json_t.splits)
  have "es \<noteq> []" using string_values_Nil[OF sv] by simp
  moreover from this have "json_string_value h (Some (hd es)) = Some ''.watchmanconfig''"
    using string_values_hd[OF sv] by simp
  ultimately show ?thesis unfolding ref prepend_heap[OF n] by simp
qed

lemma spec_ensure_watchmanconfig_first_hd:
  "\<exists>ys. spec_ensure_watchmanconfig_first xs = ''.watchmanconfig'' # ys"
  by (cases xs) (simp_all add: spec_ensure_watchmanconfig_first_def)

lemma spec_ensure_watchmanconfig_first_new:
  "xs = [] \<or> hd xs \<noteq> ''.watchmanconfig'' \<Longrightarrow>
   spec_ensure_watchmanconfig_first xs = ''.watchmanconfig'' # xs"
  by (cases xs) (auto simp: spec_ensure_watchmanconfig_first_def)

lemma strings_is_array:
  "json_array_strings h ref = Some xs \<Longrightarrow> length xs < 2 ^ 32 \<Longrightarrow>
   is_array_of_strings h ref = Some True"
  using is_array_of_strings_bounded[of h ref] by (simp add: json_array_strings_size)

lemma strings_ref: "json_array_strings h ref = Some xs \<Longrightarrow> \<exists>r es. ref = Some r \<and> node_at h (Some r) = Some (JSON_ARRAY es)"
  by (cases ref) (auto simp: json_array_strings_def split: option.splits json_t.splits)

lemma cfg_get_raw_eq: "cfg_get_raw s name optr = json_object_get (heap s) optr name"
  by (cases optr) (simp_all add: cfg_get_raw_def json_object_get_None)


text \<open>
  Where the counter wraps: on an array of \<open>2^32\<close> or more strings the check does not
  return.
\<close>

lemma loop_returns_bounded:
  assumes "is_array_of_strings_loop h ref i = Some y"
  shows "node_at h ref = Some (JSON_ARRAY es) \<longrightarrow>
         (\<forall>a \<in> set es. json_is_string h (Some a)) \<longrightarrow> length es < 2 ^ 32"
proof (rule is_array_of_strings_loop.raw_induct
    [where P = "\<lambda>h ref i y. node_at h ref = Some (JSON_ARRAY es) \<longrightarrow>
         (\<forall>a \<in> set es. json_is_string h (Some a)) \<longrightarrow> length es < 2 ^ 32",
     OF _ assms])
  fix f :: "json_heap \<Rightarrow> json_ptr \<Rightarrow> 32 word \<Rightarrow> bool option" and h ref i y
  assume ih: "\<And>h ref i y. f h ref i = Some y \<Longrightarrow>
      node_at h ref = Some (JSON_ARRAY es) \<longrightarrow>
      (\<forall>a \<in> set es. json_is_string h (Some a)) \<longrightarrow> length es < 2 ^ 32"
    and body: "(if unat i < json_array_size h ref
         then if \<not> json_is_string h (json_array_get h ref (unat i))
              then Some False else f h ref (i + 1)
         else Some True) = Some y"
  show "node_at h ref = Some (JSON_ARRAY es) \<longrightarrow>
      (\<forall>a \<in> set es. json_is_string h (Some a)) \<longrightarrow> length es < 2 ^ 32"
  proof (intro impI)
    assume n: "node_at h ref = Some (JSON_ARRAY es)"
      and strs: "\<forall>a \<in> set es. json_is_string h (Some a)"
    show "length es < 2 ^ 32"
    proof (cases "unat i < length es")
      case False
      moreover have "unat i < 2 ^ 32" using unsigned_less[of i, where ?'a = nat] by simp
      ultimately show ?thesis by simp
    next
      case True
      then have "json_is_string h (json_array_get h ref (unat i))"
        using n strs by (simp add: json_array_get_def)
      with True n body have "f h ref (i + 1) = Some y" by (simp add: json_array_size_def)
      from ih[OF this] n strs show ?thesis by blast
    qed
  qed
qed

lemma is_array_of_strings_no_return:
  assumes "json_array_strings h ref = Some xs" and "2 ^ 32 \<le> length xs"
  shows "is_array_of_strings h ref = None"
proof (cases "is_array_of_strings h ref")
  case None
  then show ?thesis .
next
  case (Some y)
  from assms(1) obtain es where n: "node_at h ref = Some (JSON_ARRAY es)"
    and sv: "string_values h es = Some xs"
    by (auto simp: json_array_strings_def split: option.splits json_t.splits)
  have strs: "\<forall>a \<in> set es. json_is_string h (Some a)"
    using sv string_values_iff[of h es] by simp
  from Some n have "is_array_of_strings_loop h ref 0 = Some y"
    by (simp add: is_array_of_strings_def json_is_array_def)
  from loop_returns_bounded[OF this, of es] n strs have "length es < 2 ^ 32" by blast
  with assms(2) string_values_length[OF sv] show ?thesis by simp
qed

lemma prepend_strings_other:
  assumes "node_at h ref = Some (JSON_ARRAY es)" and "p \<noteq> ref"
    and "json_array_strings h p = Some ys"
  shows "json_array_strings (prepend_watchmanconfig_to_array h ref) p = Some ys"
proof -
  let ?h' = "prepend_watchmanconfig_to_array h ref"
  from strings_ref[OF assms(3)] obtain q es' where
    q: "p = Some q" and nq: "node_at h (Some q) = Some (JSON_ARRAY es')" by blast
  have sv: "string_values h es' = Some ys"
    using assms(3) q nq by (simp add: json_array_strings_def)
  have nq': "node_at ?h' (Some q) = Some (JSON_ARRAY es')"
    using prepend_frame[OF assms(1), of "Some q"] nq assms(2) q by auto
  have strs: "\<forall>e \<in> set es'. json_is_string h (Some e)"
    using sv string_values_iff[of h es'] by simp
  have "\<forall>e \<in> set es'. node_at ?h' (Some e) = node_at h (Some e)"
  proof
    fix e assume "e \<in> set es'"
    with strs have s: "json_is_string h (Some e)" by blast
    then have "node_at h (Some e) \<noteq> None" and "Some e \<noteq> ref"
      using assms(1) by (auto simp: json_is_string_def split: option.splits)
    with prepend_frame[OF assms(1), of "Some e"] s
    show "node_at ?h' (Some e) = node_at h (Some e)" by auto
  qed
  from string_values_cong[OF this] sv nq' show ?thesis
    by (simp add: json_array_strings_def q)
qed


section \<open>The branches of \<^verbatim>\<open>cfg_compute_root_files\<close>\<close>

lemma enforce_read:
  "((let ref = cfg_get_json s None ''enforce_root_files'' in
      if ref \<noteq> None then
        (if \<not> json_is_boolean (heap s) ref then Inl (Fatal m)
         else Inr (json_is_true (heap s) ref))
      else Inr False) = Inr enf)
   = (cfg_get_bool s None ''enforce_root_files'' False = Inr enf)"
  by (simp add: cfg_get_bool_def Let_def)

lemma compute_from_root_files:
  assumes "cfg_get_bool s None ''_ignore_watchmanconfig'' False = Inr ign"
    and "cfg_get_bool s None ''enforce_root_files'' False = Inr enf"
    and "cfg_get_json s None ''root_files'' = Some r"
    and "is_array_of_strings (heap s) (Some r) = Some True"
  shows "cfg_compute_root_files s
         = Some (Inr (Some r, enf,
                      s\<lparr>heap := prepend_watchmanconfig_to_array (heap s) (Some r)\<rparr>))"
proof -
  have "(let ref = cfg_get_json s None ''enforce_root_files'' in
      if ref \<noteq> None then
        (if \<not> json_is_boolean (heap s) ref
         then Inl (Fatal ''Expected config value enforce_root_files to be boolean'')
         else Inr (json_is_true (heap s) ref))
      else Inr False) = Inr enf"
    using assms(2) by (simp only: enforce_read)
  then show ?thesis
    unfolding cfg_compute_root_files_def using assms(1,3,4) by (simp add: Let_def)
qed

lemma compute_from_legacy:
  assumes "cfg_get_bool s None ''_ignore_watchmanconfig'' False = Inr ign"
    and "cfg_get_bool s None ''enforce_root_files'' False = Inr enf"
    and "cfg_get_json s None ''root_files'' = None"
    and "cfg_get_json s None ''root_restrict_files'' = Some r"
    and "is_array_of_strings (heap s) (Some r) = Some True"
  shows "cfg_compute_root_files s
         = Some (Inr (Some r, True,
                if \<not> ign then s\<lparr>heap := prepend_watchmanconfig_to_array (heap s) (Some r)\<rparr>
                else s))"
proof -
  have "(let ref = cfg_get_json s None ''enforce_root_files'' in
      if ref \<noteq> None then
        (if \<not> json_is_boolean (heap s) ref
         then Inl (Fatal ''Expected config value enforce_root_files to be boolean'')
         else Inr (json_is_true (heap s) ref))
      else Inr False) = Inr enf"
    using assms(2) by (simp only: enforce_read)
  then show ?thesis
    unfolding cfg_compute_root_files_def using assms(1,3,4,5) by (simp add: Let_def)
qed

lemma compute_default:
  assumes "cfg_get_bool s None ''_ignore_watchmanconfig'' False = Inr ign"
    and "cfg_get_bool s None ''enforce_root_files'' False = Inr enf"
    and "cfg_get_json s None ''root_files'' = None"
    and "cfg_get_json s None ''root_restrict_files'' = None"
  shows "cfg_compute_root_files s
         = (case json_pack_strings (heap s)
                  (if \<not> ign then [''.watchmanconfig'', ''.hg'', ''.git'', ''.svn'']
                   else [''.hg'', ''.git'', ''.svn'']) of
              (arr, h1) \<Rightarrow> Some (Inr (arr, enf, s\<lparr>heap := h1\<rparr>)))"
proof -
  have "(let ref = cfg_get_json s None ''enforce_root_files'' in
      if ref \<noteq> None then
        (if \<not> json_is_boolean (heap s) ref
         then Inl (Fatal ''Expected config value enforce_root_files to be boolean'')
         else Inr (json_is_true (heap s) ref))
      else Inr False) = Inr enf"
    using assms(2) by (simp only: enforce_read)
  then show ?thesis
    unfolding cfg_compute_root_files_def using assms(1,3,4) by (simp add: Let_def)
qed

lemma compute_flags_readable:
  assumes "cfg_compute_root_files s = Some (Inr res)"
  shows "\<exists>ign enf. cfg_get_bool s None ''_ignore_watchmanconfig'' False = Inr ign
                 \<and> cfg_get_bool s None ''enforce_root_files'' False = Inr enf"
proof (cases "cfg_get_bool s None ''_ignore_watchmanconfig'' False")
  case (Inl e)
  with assms show ?thesis by (simp add: cfg_compute_root_files_def)
next
  case (Inr ign)
  show ?thesis
  proof (cases "cfg_get_bool s None ''enforce_root_files'' False")
    case (Inl e)
    then have "(let ref = cfg_get_json s None ''enforce_root_files'' in
      if ref \<noteq> None then
        (if \<not> json_is_boolean (heap s) ref
         then Inl (Fatal ''Expected config value enforce_root_files to be boolean'')
         else Inr (json_is_true (heap s) ref))
      else Inr False) = Inl (Fatal ''Expected config value enforce_root_files to be boolean'')"
      by (auto simp: cfg_get_bool_def Let_def split: if_splits)
    with assms Inr show ?thesis unfolding cfg_compute_root_files_def by (simp add: Let_def)
  next
    case (Inr enf)
    with \<open>cfg_get_bool s None ''_ignore_watchmanconfig'' False = Inr ign\<close> show ?thesis by blast
  qed
qed

lemma compute_resolved_is_strings:
  assumes "cfg_compute_root_files s = Some (Inr res)"
  shows "cfg_get_json s None ''root_files'' = Some r \<longrightarrow> is_array_of_strings (heap s) (Some r) = Some True"
    and "cfg_get_json s None ''root_files'' = None \<and> cfg_get_json s None ''root_restrict_files'' = Some r
         \<longrightarrow> is_array_of_strings (heap s) (Some r) = Some True"
proof -
  from compute_flags_readable[OF assms] obtain ign enf where
    f: "cfg_get_bool s None ''_ignore_watchmanconfig'' False = Inr ign"
       "cfg_get_bool s None ''enforce_root_files'' False = Inr enf" by blast
  have e: "(let ref = cfg_get_json s None ''enforce_root_files'' in
      if ref \<noteq> None then
        (if \<not> json_is_boolean (heap s) ref
         then Inl (Fatal ''Expected config value enforce_root_files to be boolean'')
         else Inr (json_is_true (heap s) ref))
      else Inr False) = Inr enf"
    using f(2) by (simp only: enforce_read)
  show "cfg_get_json s None ''root_files'' = Some r \<longrightarrow> is_array_of_strings (heap s) (Some r) = Some True"
    using assms e f(1) unfolding cfg_compute_root_files_def by (auto simp: Let_def split: if_splits option.splits)
  show "cfg_get_json s None ''root_files'' = None \<and> cfg_get_json s None ''root_restrict_files'' = Some r
         \<longrightarrow> is_array_of_strings (heap s) (Some r) = Some True"
    using assms e f(1) unfolding cfg_compute_root_files_def by (auto simp: Let_def split: if_splits option.splits)
qed

lemma compute_result_cases:
  assumes "cfg_compute_root_files s = Some (Inr (ref, enf, s'))"
  shows "\<exists>ign enf0.
           cfg_get_bool s None ''_ignore_watchmanconfig'' False = Inr ign
         \<and> cfg_get_bool s None ''enforce_root_files'' False = Inr enf0
         \<and> ((\<exists>r. cfg_get_json s None ''root_files'' = Some r \<and> is_array_of_strings (heap s) (Some r) = Some True
                 \<and> ref = Some r \<and> enf = enf0
                 \<and> s' = s\<lparr>heap := prepend_watchmanconfig_to_array (heap s) (Some r)\<rparr>)
            \<or> (\<exists>r. cfg_get_json s None ''root_files'' = None
                 \<and> cfg_get_json s None ''root_restrict_files'' = Some r
                 \<and> is_array_of_strings (heap s) (Some r) = Some True \<and> ref = Some r \<and> enf
                 \<and> s' = (if \<not> ign then s\<lparr>heap := prepend_watchmanconfig_to_array (heap s) (Some r)\<rparr>
                          else s))
            \<or> (cfg_get_json s None ''root_files'' = None
                 \<and> cfg_get_json s None ''root_restrict_files'' = None \<and> enf = enf0
                 \<and> json_array_strings (heap s') ref
                     = Some (if ign then [''.hg'', ''.git'', ''.svn'']
                             else [''.watchmanconfig'', ''.hg'', ''.git'', ''.svn''])))"
proof -
  from compute_flags_readable[OF assms] obtain ign enf0 where
    f: "cfg_get_bool s None ''_ignore_watchmanconfig'' False = Inr ign"
       "cfg_get_bool s None ''enforce_root_files'' False = Inr enf0" by blast
  note rs = compute_resolved_is_strings[OF assms]
  show ?thesis
  proof (cases "cfg_get_json s None ''root_files''")
    case (Some r)
    with rs(1)[of r] have a: "is_array_of_strings (heap s) (Some r) = Some True" by simp
    from compute_from_root_files[OF f Some a] assms f Some a show ?thesis by auto
  next
    case None
    note nrf = this
    show ?thesis
    proof (cases "cfg_get_json s None ''root_restrict_files''")
      case (Some r)
      with rs(2)[of r] nrf have a: "is_array_of_strings (heap s) (Some r) = Some True" by simp
      from compute_from_legacy[OF f nrf Some a] assms f nrf Some a show ?thesis by auto
    next
      case None
      let ?ss = "if \<not> ign then [''.watchmanconfig'', ''.hg'', ''.git'', ''.svn'']
                 else [''.hg'', ''.git'', ''.svn'']"
      obtain arr h1 where p: "json_pack_strings (heap s) ?ss = (arr, h1)" by fastforce
      with json_pack_strings_result[of "heap s" ?ss]
      have "json_array_strings h1 arr = Some ?ss" by simp
      moreover have "cfg_compute_root_files s = Some (Inr (arr, enf0, s\<lparr>heap := h1\<rparr>))"
        using compute_default[OF f nrf None] p by simp
      ultimately have "json_array_strings (heap s') ref = Some ?ss \<and> enf = enf0"
        using assms by auto
      with f nrf None show ?thesis by (cases ign) auto
    qed
  qed
qed

lemma default_markers:
  assumes "cfg_get_bool s None ''_ignore_watchmanconfig'' False = Inr ign"
    and "cfg_get_bool s None ''enforce_root_files'' False = Inr enf"
    and "cfg_get_json s None ''root_files'' = None"
    and "cfg_get_json s None ''root_restrict_files'' = None"
  shows "returned_markers (cfg_compute_root_files s)
           = Some (if ign then [''.hg'', ''.git'', ''.svn'']
                   else [''.watchmanconfig'', ''.hg'', ''.git'', ''.svn''])"
proof -
  let ?ss = "if \<not> ign then [''.watchmanconfig'', ''.hg'', ''.git'', ''.svn'']
             else [''.hg'', ''.git'', ''.svn'']"
  obtain arr h1 where p: "json_pack_strings (heap s) ?ss = (arr, h1)" by fastforce
  with json_pack_strings_result[of "heap s" ?ss]
  have "json_array_strings h1 arr = Some ?ss" by simp
  moreover have "cfg_compute_root_files s = Some (Inr (arr, enf, s\<lparr>heap := h1\<rparr>))"
    using compute_default[OF assms] p by simp
  ultimately show ?thesis by (cases ign) (simp_all add: returned_markers_def)
qed


section \<open>Facts about the example states\<close>

lemmas eval_defs = cfg_get_bool_def cfg_get_json_unfold json_object_get_def node_at_def
  json_is_boolean_def json_is_true_def json_is_false_def json_array_strings_def
  json_string_value_def Let_def

lemma st_root_files_facts:
  "cfg_get_bool st_root_files None ''_ignore_watchmanconfig'' False = Inr True"
  "cfg_get_bool st_root_files None ''enforce_root_files'' False = Inr True"
  "cfg_get_json st_root_files None ''root_files'' = Some 1"
  "json_array_strings (heap st_root_files) (Some 1) = Some [''foo'']"
  by (simp_all add: eval_defs st_root_files_def)

lemma st_legacy_facts:
  "cfg_get_bool st_legacy None ''_ignore_watchmanconfig'' False = Inr False"
  "cfg_get_bool st_legacy None ''enforce_root_files'' False = Inr False"
  "cfg_get_json st_legacy None ''root_files'' = None"
  "cfg_get_json st_legacy None ''root_restrict_files'' = Some 1"
  "json_array_strings (heap st_legacy) (Some 1) = Some [''bar'']"
  by (simp_all add: eval_defs st_legacy_def)

lemma st_unset_facts:
  "cfg_get_bool st_unset None ''_ignore_watchmanconfig'' False = Inr False"
  "cfg_get_bool st_unset None ''enforce_root_files'' False = Inr False"
  "cfg_get_json st_unset None ''root_files'' = None"
  "cfg_get_json st_unset None ''root_restrict_files'' = None"
  by (simp_all add: eval_defs st_unset_def)

lemma st_optout_arg_eq:
  "st_optout_arg =
     \<lparr>heap = [JSON_OBJECT [(''_ignore_watchmanconfig'', 1)], JSON_FALSE, JSON_TRUE,
              JSON_OBJECT [(''_ignore_watchmanconfig'', 2)]],
      global_cfg = Some 0, arg_cfg = Some 3\<rparr>"
  by (simp add: st_optout_arg_def st_optout_global_def cfg_set_arg_def json_object_def
      json_alloc_def json_object_set_nocheck_def node_at_def)

lemma st_optout_global_facts:
  "cfg_get_bool st_optout_global None ''_ignore_watchmanconfig'' False = Inr False"
  "cfg_get_bool st_optout_global None ''enforce_root_files'' False = Inr False"
  "cfg_get_json st_optout_global None ''root_files'' = None"
  "cfg_get_json st_optout_global None ''root_restrict_files'' = None"
  "cfg_get_raw st_optout_global ''_ignore_watchmanconfig'' (global_cfg st_optout_global) = Some 1"
  "node_at (heap st_optout_global) (Some 1) = Some JSON_FALSE"
  by (simp_all add: eval_defs cfg_get_raw_def st_optout_global_def)

lemma st_optout_arg_facts:
  "cfg_get_bool st_optout_arg None ''_ignore_watchmanconfig'' False = Inr True"
  "cfg_get_bool st_optout_arg None ''enforce_root_files'' False = Inr False"
  "cfg_get_json st_optout_arg None ''root_files'' = None"
  "cfg_get_json st_optout_arg None ''root_restrict_files'' = None"
  "cfg_get_raw st_optout_arg ''_ignore_watchmanconfig'' (arg_cfg st_optout_arg) = Some 2"
  "cfg_get_raw st_optout_arg ''_ignore_watchmanconfig'' (global_cfg st_optout_arg) = Some 1"
  "node_at (heap st_optout_arg) (Some 1) = Some JSON_FALSE"
  "node_at (heap st_optout_arg) (Some 2) = Some JSON_TRUE"
  by (simp_all add: eval_defs cfg_get_raw_def st_optout_arg_eq)

lemma st_shared_eq:
  "st_shared =
     \<lparr>heap = [JSON_ARRAY [1], JSON_STRING ''foo'', JSON_OBJECT [(''root_files'', 0)],
              JSON_OBJECT [(''ignore_vcs'', 0)]],
      global_cfg = Some 2, arg_cfg = Some 3\<rparr>"
  by (simp add: st_shared_def st_shared_base_def cfg_set_arg_def cfg_set_global_def
      json_object_def json_alloc_def json_object_set_nocheck_def node_at_def)

lemma st_shared_facts:
  "cfg_get_bool st_shared None ''_ignore_watchmanconfig'' False = Inr False"
  "cfg_get_bool st_shared None ''enforce_root_files'' False = Inr False"
  "cfg_get_json st_shared None ''root_files'' = Some 0"
  "json_array_strings (heap st_shared) (Some 0) = Some [''foo'']"
  "cfg_get_json st_shared None ''ignore_vcs'' = Some 0"
  "cfg_get_json st_shared_after None ''ignore_vcs'' = Some 0"
  "json_array_strings (heap st_shared_after) (Some 0) = Some [''.watchmanconfig'', ''foo'']"
  by (simp_all add: eval_defs st_shared_eq st_shared_after_def)

lemma st_shared_step:
  "prepend_watchmanconfig_to_array (heap st_shared) (Some 0) = heap st_shared_after"
  by (simp add: prepend_watchmanconfig_to_array_def json_array_size_def json_array_get_def
      json_string_value_def json_string_nocheck_def json_alloc_def json_array_insert_new_def
      node_at_def st_shared_eq st_shared_after_def)

lemma st_shared_result:
  "cfg_compute_root_files st_shared = Some (Inr (Some 0, False, st_shared_after))"
proof -
  have eq: "st_shared\<lparr>heap := heap st_shared_after\<rparr> = st_shared_after"
    by (simp add: st_shared_eq st_shared_after_def)
  have "length [''foo''] < (2::nat) ^ 32" by simp
  from compute_from_root_files[OF st_shared_facts(1,2,3) strings_is_array[OF st_shared_facts(4) this]]
  show ?thesis unfolding st_shared_step eq .
qed

lemma typed_lookup:
  assumes "cfg_get_json s rt name = Some a" and "node_at (heap s) (Some a) = Some n"
  shows "json_is_string (heap s) (cfg_get_json s rt name) = (\<exists>x. n = JSON_STRING x)"
    and "json_is_integer (heap s) (cfg_get_json s rt name) = (\<exists>x. n = JSON_INTEGER x)"
    and "json_is_real (heap s) (cfg_get_json s rt name) = (\<exists>x. n = JSON_REAL x)"
    and "json_is_true (heap s) (cfg_get_json s rt name) = (n = JSON_TRUE)"
    and "json_is_false (heap s) (cfg_get_json s rt name) = (n = JSON_FALSE)"
  using assms
  by (cases n; simp add: json_is_string_def json_is_integer_def json_is_real_def
      json_is_true_def json_is_false_def)+

lemma st_typed_lookup:
  "cfg_get_json st_typed None ''name'' = Some 1"
  "cfg_get_json st_typed None ''count'' = Some 2"
  "cfg_get_json st_typed None ''ratio'' = Some 3"
  "cfg_get_json st_typed None ''flag'' = Some 4"
  "node_at (heap st_typed) (Some 1) = Some (JSON_STRING ''abc'')"
  "node_at (heap st_typed) (Some 2) = Some (JSON_INTEGER 5)"
  "node_at (heap st_typed) (Some 3) = Some (JSON_REAL 2)"
  "node_at (heap st_typed) (Some 4) = Some JSON_TRUE"
  by (simp_all add: cfg_get_json_unfold json_object_get_def node_at_def st_typed_def)

lemma st_int_arg_lookup:
  "cfg_get_json st_int_arg None ''timeout'' = Some 0"
  "node_at (heap st_int_arg) (Some 0) = Some (JSON_INTEGER 7)"
  by (simp_all add: cfg_get_json_unfold json_object_get_def node_at_def st_int_arg_def)


section \<open>The precedence resolver\<close>

text \<open>
  C2. \<^verbatim>\<open>cfg_get_json\<close> returns the root view's value when a root is supplied and its
  \<^verbatim>\<open>config_file\<close> holds the key; otherwise the argument layer's value when that layer
  holds the key; otherwise whatever the global layer gives, a value or nothing.
\<close>

theorem cfg_get_json_precedence:
  "cfg_get_json s rt name =
     (case (case rt of None \<Rightarrow> None
            | Some r \<Rightarrow> json_object_get (heap s) (config_file r) name) of
        Some v \<Rightarrow> Some v
      | None \<Rightarrow> (case cfg_get_raw s name (arg_cfg s) of
                  Some v \<Rightarrow> Some v
                | None \<Rightarrow> cfg_get_raw s name (global_cfg s)))"
  by (simp add: cfg_get_json_unfold cfg_get_raw_def json_object_get_None cong: option.case_cong)

theorem cfg_get_json_precedence_witness:
  "cfg_get_json st_layers (Some root_layers) ''k'' = Some 3
   \<and> cfg_get_json st_layers None ''k'' = Some 4
   \<and> cfg_get_json st_layers (Some root_layers) ''g'' = Some 5
   \<and> cfg_get_json st_layers (Some root_layers) ''z'' = None"
  by (simp add: cfg_get_json_precedence cfg_get_raw_def json_object_get_def node_at_def
      st_layers_def root_layers_def)

text \<open>
  C9. \<^verbatim>\<open>cfg_get_json\<close> returns \<^verbatim>\<open>NULL\<close> exactly when the key has no entry in the root
  view, the argument layer and the global layer. A key bound to a JSON null node is
  present: the first layer that binds it wins with that node, whatever the layers below
  hold, and the result is not \<^verbatim>\<open>NULL\<close>.
\<close>

theorem cfg_get_json_absent_vs_null:
  "((cfg_get_json s rt name = None) =
      ((case rt of None \<Rightarrow> None
        | Some r \<Rightarrow> json_object_get (heap s) (config_file r) name) = None
       \<and> cfg_get_raw s name (arg_cfg s) = None
       \<and> cfg_get_raw s name (global_cfg s) = None))
   \<and> (node_at (heap s) (Some a) = Some JSON_NULL \<longrightarrow>
        (rt = Some r \<and> json_object_get (heap s) (config_file r) name = Some a
           \<longrightarrow> cfg_get_json s rt name = Some a)
      \<and> ((case rt of None \<Rightarrow> None
           | Some r \<Rightarrow> json_object_get (heap s) (config_file r) name) = None
          \<and> cfg_get_raw s name (arg_cfg s) = Some a
           \<longrightarrow> cfg_get_json s rt name = Some a)
      \<and> ((case rt of None \<Rightarrow> None
           | Some r \<Rightarrow> json_object_get (heap s) (config_file r) name) = None
          \<and> cfg_get_raw s name (arg_cfg s) = None
          \<and> cfg_get_raw s name (global_cfg s) = Some a
           \<longrightarrow> cfg_get_json s rt name = Some a))"
  by (auto simp: cfg_get_json_unfold cfg_get_raw_def json_object_get_None split: option.splits)

theorem cfg_get_json_absent_vs_null_witness:
  "cfg_get_json st_layers (Some root_layers) ''z'' = None
   \<and> node_at (heap st_layers) (Some 6) = Some JSON_NULL
   \<and> cfg_get_raw st_layers ''n'' (arg_cfg st_layers) = Some 6
   \<and> cfg_get_raw st_layers ''n'' (global_cfg st_layers) = Some 4
   \<and> cfg_get_json st_layers (Some root_layers) ''n'' = Some 6"
  using cfg_get_json_absent_vs_null[of st_layers "Some root_layers" "''z''" 0 root_layers]
        cfg_get_json_absent_vs_null[of st_layers "Some root_layers" "''n''" 6 root_layers]
  by (simp add: cfg_get_raw_def json_object_get_def node_at_def st_layers_def root_layers_def)


section \<open>The typed accessors\<close>

text \<open>
  C6, as amended. When the value a key resolves to is a string, \<^verbatim>\<open>cfg_get_int\<close> ends in
  the fatal error and not in the default. Each accessor does so on every value that fails
  the test it makes: \<^verbatim>\<open>cfg_get_string\<close> on anything but a string, \<^verbatim>\<open>cfg_get_int\<close> on
  anything but an integer, \<^verbatim>\<open>cfg_get_bool\<close> on anything but true or false, and
  \<^verbatim>\<open>cfg_get_double\<close> on anything that is neither an integer nor a real.
\<close>

theorem typed_accessor_mismatch_fatal:
  assumes "cfg_get_json s rt name = Some a" and "node_at (heap s) (Some a) = Some n"
  shows "((\<exists>x. n = JSON_STRING x) \<longrightarrow>
            cfg_get_int s rt name di
              = Inl (Fatal (''Expected config value '' @ name @ '' to be an integer'')))
       \<and> ((\<forall>x. n \<noteq> JSON_STRING x) \<longrightarrow>
            cfg_get_string s rt name ds
              = Inl (Fatal (''Expected config value '' @ name @ '' to be a string'')))
       \<and> ((\<forall>i. n \<noteq> JSON_INTEGER i) \<longrightarrow>
            cfg_get_int s rt name di
              = Inl (Fatal (''Expected config value '' @ name @ '' to be an integer'')))
       \<and> (n \<noteq> JSON_TRUE \<and> n \<noteq> JSON_FALSE \<longrightarrow>
            cfg_get_bool s rt name db
              = Inl (Fatal (''Expected config value '' @ name @ '' to be a boolean'')))
       \<and> ((\<forall>i. n \<noteq> JSON_INTEGER i) \<and> (\<forall>x. n \<noteq> JSON_REAL x) \<longrightarrow>
            cfg_get_double s rt name dd
              = Inl (Fatal (''Expected config value '' @ name @ '' to be a number'')))"
proof -
  note k = typed_lookup[OF assms]
  have 1: "(\<exists>x. n = JSON_STRING x) \<longrightarrow>
            cfg_get_int s rt name di
              = Inl (Fatal (''Expected config value '' @ name @ '' to be an integer''))"
    using assms(1) k by (auto simp: cfg_get_int_def Let_def)
  have 2: "(\<forall>x. n \<noteq> JSON_STRING x) \<longrightarrow>
            cfg_get_string s rt name ds
              = Inl (Fatal (''Expected config value '' @ name @ '' to be a string''))"
    using assms(1) k by (simp add: cfg_get_string_def Let_def)
  have 3: "(\<forall>i. n \<noteq> JSON_INTEGER i) \<longrightarrow>
            cfg_get_int s rt name di
              = Inl (Fatal (''Expected config value '' @ name @ '' to be an integer''))"
    using assms(1) k by (simp add: cfg_get_int_def Let_def)
  have 4: "n \<noteq> JSON_TRUE \<and> n \<noteq> JSON_FALSE \<longrightarrow>
            cfg_get_bool s rt name db
              = Inl (Fatal (''Expected config value '' @ name @ '' to be a boolean''))"
    using assms(1) k by (simp add: cfg_get_bool_def json_is_boolean_def Let_def)
  have 5: "(\<forall>i. n \<noteq> JSON_INTEGER i) \<and> (\<forall>x. n \<noteq> JSON_REAL x) \<longrightarrow>
            cfg_get_double s rt name dd
              = Inl (Fatal (''Expected config value '' @ name @ '' to be a number''))"
    using assms(1) k by (simp add: cfg_get_double_def json_is_number_def Let_def)
  from 1 2 3 4 5 show ?thesis by blast
qed

theorem typed_accessor_mismatch_fatal_witness:
  "cfg_get_json st_typed None ''name'' = Some 1
   \<and> node_at (heap st_typed) (Some 1) = Some (JSON_STRING ''abc'')
   \<and> cfg_get_int st_typed None ''name'' 42 = Inl (Fatal ''Expected config value name to be an integer'')
   \<and> cfg_get_bool st_typed None ''name'' True = Inl (Fatal ''Expected config value name to be a boolean'')
   \<and> cfg_get_double st_typed None ''name'' 1 = Inl (Fatal ''Expected config value name to be a number'')
   \<and> cfg_get_string st_typed None ''count'' None = Inl (Fatal ''Expected config value count to be a string'')"
  using typed_accessor_mismatch_fatal[OF st_typed_lookup(1) st_typed_lookup(5), of 42 None True 1]
        typed_accessor_mismatch_fatal[OF st_typed_lookup(2) st_typed_lookup(6), of 0 None True 1]
        st_typed_lookup
  by simp

text \<open>
  C6 as stated fails for the double accessor: in \<open>st_typed\<close> the key \<open>count\<close> holds an
  integer, a variant other than the one asked for, and \<^verbatim>\<open>cfg_get_double\<close> does not end in
  the fatal error.
\<close>

theorem cfg_get_double_integer_not_fatal:
  "json_is_integer (heap st_typed) (cfg_get_json st_typed None ''count'')
   \<and> \<not> json_is_real (heap st_typed) (cfg_get_json st_typed None ''count'')
   \<and> \<not> isl (cfg_get_double st_typed None ''count'' 9)"
  by (simp add: cfg_get_double_def json_is_number_def json_is_integer_def json_is_real_def
      st_typed_lookup Let_def)

text \<open>
  C7, as amended. \<^verbatim>\<open>cfg_get_int\<close> matches the variant exactly: it returns an integer and
  ends in the fatal error on a real. \<^verbatim>\<open>cfg_get_double\<close> tests \<^verbatim>\<open>json_is_number\<close>: it ends
  in the fatal error exactly when the value is neither an integer nor a real, so an
  integer is accepted, and a real is returned as it is.
\<close>

theorem cfg_get_double_number_check:
  assumes "cfg_get_json s rt name = Some a" and "node_at (heap s) (Some a) = Some n"
  shows "(isl (cfg_get_double s rt name dd) = ((\<forall>i. n \<noteq> JSON_INTEGER i) \<and> (\<forall>x. n \<noteq> JSON_REAL x)))
       \<and> (\<forall>i. n = JSON_INTEGER i \<longrightarrow>
             cfg_get_int s rt name di = Inr i \<and> \<not> isl (cfg_get_double s rt name dd))
       \<and> (\<forall>x. n = JSON_REAL x \<longrightarrow>
             cfg_get_double s rt name dd = Inr x
             \<and> cfg_get_int s rt name di
                 = Inl (Fatal (''Expected config value '' @ name @ '' to be an integer'')))"
proof -
  note k = typed_lookup[OF assms]
  have 1: "isl (cfg_get_double s rt name dd) = ((\<forall>i. n \<noteq> JSON_INTEGER i) \<and> (\<forall>x. n \<noteq> JSON_REAL x))"
    using assms(1) k by (auto simp: cfg_get_double_def json_is_number_def Let_def)
  have 2: "\<forall>i. n = JSON_INTEGER i \<longrightarrow>
             cfg_get_int s rt name di = Inr i \<and> \<not> isl (cfg_get_double s rt name dd)"
    using assms k
    by (auto simp: cfg_get_double_def cfg_get_int_def json_is_number_def json_integer_value_def Let_def)
  have 3: "\<forall>x. n = JSON_REAL x \<longrightarrow>
             cfg_get_double s rt name dd = Inr x
             \<and> cfg_get_int s rt name di
                 = Inl (Fatal (''Expected config value '' @ name @ '' to be an integer''))"
    using assms k
    by (auto simp: cfg_get_double_def cfg_get_int_def json_is_number_def json_real_value_def Let_def)
  from 1 2 3 show ?thesis by blast
qed

theorem cfg_get_double_number_check_witness:
  "cfg_get_json st_typed None ''ratio'' = Some 3
   \<and> node_at (heap st_typed) (Some 3) = Some (JSON_REAL 2)
   \<and> cfg_get_double st_typed None ''ratio'' 0 = Inr 2
   \<and> cfg_get_int st_typed None ''ratio'' 0 = Inl (Fatal ''Expected config value ratio to be an integer'')
   \<and> \<not> isl (cfg_get_double st_int_arg None ''timeout'' 2)
   \<and> isl (cfg_get_double st_typed None ''name'' 2)"
  using cfg_get_double_number_check[OF st_typed_lookup(3) st_typed_lookup(7), of 0 0]
        cfg_get_double_number_check[OF st_int_arg_lookup, of 2 0]
        cfg_get_double_number_check[OF st_typed_lookup(1) st_typed_lookup(5), of 2 0]
        st_typed_lookup
  by simp

text \<open>
  C7 as stated fails: in \<open>st_int_arg\<close> the key \<open>timeout\<close> resolves to the integer 7 and
  \<^verbatim>\<open>cfg_get_double\<close> does not take the fatal path.
\<close>

theorem cfg_get_double_on_integer:
  "node_at (heap st_int_arg) (cfg_get_json st_int_arg None ''timeout'') = Some (JSON_INTEGER 7)
   \<and> \<not> isl (cfg_get_double st_int_arg None ''timeout'' 2)"
  by (simp add: cfg_get_double_def json_is_number_def json_is_integer_def st_int_arg_lookup Let_def)


section \<open>The root-marker list\<close>

text \<open>
  C3. Both flags are read before \<open>root_files\<close> is looked at. When both reads return and
  \<open>root_files\<close> resolves to an array of the strings \<open>xs\<close>, of fewer than \<open>2^32\<close> elements
  so that the 32-bit counter of the check reaches its end, the call returns that same
  array, which now holds \<open>xs\<close> with \<open>.watchmanconfig\<close> ensured at index 0 (prepended unless
  the element at index 0 is already the marker; the singleton when \<open>xs\<close> is empty). This
  holds for either value \<open>ign\<close> of the opt-out flag, and \<^verbatim>\<open>*enforcing\<close> is the value read from
  \<open>enforce_root_files\<close>.
\<close>

theorem root_files_branch:
  assumes "cfg_get_bool s None ''_ignore_watchmanconfig'' False = Inr ign"
    and "cfg_get_bool s None ''enforce_root_files'' False = Inr enf"
    and "cfg_get_json s None ''root_files'' = ref"
    and "json_array_strings (heap s) ref = Some xs"
    and "length xs < 2 ^ 32"
  shows "\<exists>s'. cfg_compute_root_files s = Some (Inr (ref, enf, s'))
              \<and> json_array_strings (heap s') ref = Some (spec_ensure_watchmanconfig_first xs)"
proof -
  from strings_ref[OF assms(4)] obtain r where r: "ref = Some r" by blast
  have "cfg_compute_root_files s
        = Some (Inr (ref, enf, s\<lparr>heap := prepend_watchmanconfig_to_array (heap s) ref\<rparr>))"
    using compute_from_root_files[OF assms(1,2), of r] assms(3) strings_is_array[OF assms(4,5)]
    by (simp add: r)
  with prepend_strings[OF assms(4)] show ?thesis by simp
qed

theorem root_files_branch_witness:
  "returned_markers (cfg_compute_root_files st_root_files) = Some [''.watchmanconfig'', ''foo'']
   \<and> returned_enforcing (cfg_compute_root_files st_root_files) = Some True"
  using root_files_branch[OF st_root_files_facts]
  by (auto simp: returned_markers_def returned_enforcing_def spec_ensure_watchmanconfig_first_def)

text \<open>
  C4. When \<open>root_files\<close> does not resolve and \<open>root_restrict_files\<close> resolves to an array
  of the strings \<open>xs\<close>, of fewer than \<open>2^32\<close> elements, the call returns that array; it holds \<open>xs\<close> unchanged when the
  opt-out flag is true and \<open>xs\<close> with the marker ensured at index 0 when the flag is false.
  \<^verbatim>\<open>*enforcing\<close> is true whatever \<open>enforce_root_files\<close> reads as.
\<close>

theorem legacy_branch:
  assumes "cfg_get_bool s None ''_ignore_watchmanconfig'' False = Inr ign"
    and "cfg_get_bool s None ''enforce_root_files'' False = Inr enf"
    and "cfg_get_json s None ''root_files'' = None"
    and "cfg_get_json s None ''root_restrict_files'' = ref"
    and "json_array_strings (heap s) ref = Some xs"
    and "length xs < 2 ^ 32"
  shows "\<exists>s'. cfg_compute_root_files s = Some (Inr (ref, True, s'))
              \<and> json_array_strings (heap s') ref
                  = Some (if ign then xs else spec_ensure_watchmanconfig_first xs)"
proof -
  from strings_ref[OF assms(5)] obtain r where r: "ref = Some r" by blast
  have "cfg_compute_root_files s
        = Some (Inr (ref, True,
               if \<not> ign then s\<lparr>heap := prepend_watchmanconfig_to_array (heap s) ref\<rparr> else s))"
    using compute_from_legacy[OF assms(1,2,3), of r] assms(4) strings_is_array[OF assms(5,6)]
    by (simp add: r)
  with prepend_strings[OF assms(5)] assms(5) show ?thesis by (cases ign) simp_all
qed

theorem legacy_branch_witness:
  "returned_markers (cfg_compute_root_files st_legacy) = Some [''.watchmanconfig'', ''bar'']
   \<and> returned_enforcing (cfg_compute_root_files st_legacy) = Some True"
  using legacy_branch[OF st_legacy_facts]
  by (auto simp: returned_markers_def returned_enforcing_def spec_ensure_watchmanconfig_first_def)

text \<open>
  C5. When neither key resolves, the call returns a new array: the three markers
  \<open>.hg\<close>, \<open>.git\<close>, \<open>.svn\<close> when the opt-out flag is true, and the same with
  \<open>.watchmanconfig\<close> in front when it is false. \<^verbatim>\<open>*enforcing\<close> is the value read from
  \<open>enforce_root_files\<close>.
\<close>

theorem default_branch:
  assumes "cfg_get_bool s None ''_ignore_watchmanconfig'' False = Inr ign"
    and "cfg_get_bool s None ''enforce_root_files'' False = Inr enf"
    and "cfg_get_json s None ''root_files'' = None"
    and "cfg_get_json s None ''root_restrict_files'' = None"
  shows "\<exists>ref s'. cfg_compute_root_files s = Some (Inr (ref, enf, s'))
              \<and> json_array_strings (heap s') ref
                  = Some (if ign then [''.hg'', ''.git'', ''.svn'']
                          else [''.watchmanconfig'', ''.hg'', ''.git'', ''.svn''])"
proof -
  let ?ss = "if \<not> ign then [''.watchmanconfig'', ''.hg'', ''.git'', ''.svn'']
             else [''.hg'', ''.git'', ''.svn'']"
  obtain arr h1 where p: "json_pack_strings (heap s) ?ss = (arr, h1)" by fastforce
  with json_pack_strings_result[of "heap s" ?ss]
  have "json_array_strings h1 arr = Some ?ss" by simp
  moreover have "cfg_compute_root_files s = Some (Inr (arr, enf, s\<lparr>heap := h1\<rparr>))"
    using compute_default[OF assms] p by simp
  ultimately show ?thesis by (cases ign) auto
qed

theorem default_branch_witness:
  "returned_markers (cfg_compute_root_files st_unset)
     = Some [''.watchmanconfig'', ''.hg'', ''.git'', ''.svn'']
   \<and> returned_enforcing (cfg_compute_root_files st_unset) = Some False"
  using default_branch[OF st_unset_facts]
  by (auto simp: returned_markers_def returned_enforcing_def)

text \<open>
  C1. When the opt-out flag reads as false, every array that \<^verbatim>\<open>cfg_compute_root_files\<close>
  returns is an array of strings whose element 0 is \<open>.watchmanconfig\<close>, whichever of the
  three branches produced it.
\<close>

theorem marker_first_unless_opted_out:
  assumes "cfg_get_bool s None ''_ignore_watchmanconfig'' False = Inr False"
    and "cfg_compute_root_files s = Some (Inr (ref, enf, s'))"
  shows "\<exists>xs. json_array_strings (heap s') ref = Some (''.watchmanconfig'' # xs)"
proof -
  from compute_result_cases[OF assms(2)] assms(1) obtain enf0 where
    c: "(\<exists>r. cfg_get_json s None ''root_files'' = Some r \<and> is_array_of_strings (heap s) (Some r) = Some True
                 \<and> ref = Some r \<and> enf = enf0
                 \<and> s' = s\<lparr>heap := prepend_watchmanconfig_to_array (heap s) (Some r)\<rparr>)
            \<or> (\<exists>r. cfg_get_json s None ''root_files'' = None
                 \<and> cfg_get_json s None ''root_restrict_files'' = Some r
                 \<and> is_array_of_strings (heap s) (Some r) = Some True \<and> ref = Some r \<and> enf
                 \<and> s' = s\<lparr>heap := prepend_watchmanconfig_to_array (heap s) (Some r)\<rparr>)
            \<or> (cfg_get_json s None ''root_files'' = None
                 \<and> cfg_get_json s None ''root_restrict_files'' = None \<and> enf = enf0
                 \<and> json_array_strings (heap s') ref
                     = Some [''.watchmanconfig'', ''.hg'', ''.git'', ''.svn''])"
    by auto
  have pre: "\<And>r. is_array_of_strings (heap s) (Some r) = Some True \<Longrightarrow>
      \<exists>xs. json_array_strings (prepend_watchmanconfig_to_array (heap s) (Some r)) (Some r)
             = Some (''.watchmanconfig'' # xs)"
  proof -
    fix r assume "is_array_of_strings (heap s) (Some r) = Some True"
    then obtain xs where "json_array_strings (heap s) (Some r) = Some xs"
      using is_array_of_strings_returned_True by blast
    from prepend_strings[OF this] spec_ensure_watchmanconfig_first_hd[of xs]
    show "\<exists>xs. json_array_strings (prepend_watchmanconfig_to_array (heap s) (Some r)) (Some r)
             = Some (''.watchmanconfig'' # xs)" by auto
  qed
  from c show ?thesis
  proof (elim disjE exE conjE)
    fix r assume "is_array_of_strings (heap s) (Some r) = Some True" "ref = Some r"
      "s' = s\<lparr>heap := prepend_watchmanconfig_to_array (heap s) (Some r)\<rparr>"
    with pre[of r] show ?thesis by simp
  next
    fix r assume "is_array_of_strings (heap s) (Some r) = Some True" "ref = Some r"
      "s' = s\<lparr>heap := prepend_watchmanconfig_to_array (heap s) (Some r)\<rparr>"
    with pre[of r] show ?thesis by simp
  next
    assume "json_array_strings (heap s') ref = Some [''.watchmanconfig'', ''.hg'', ''.git'', ''.svn'']"
    then show ?thesis by simp
  qed
qed

theorem marker_first_unless_opted_out_witness:
  "cfg_get_bool st_legacy None ''_ignore_watchmanconfig'' False = Inr False
   \<and> (\<exists>xs. returned_markers (cfg_compute_root_files st_legacy) = Some (''.watchmanconfig'' # xs))"
proof -
  have "length [''bar''] < (2::nat) ^ 32" by simp
  then have res: "cfg_compute_root_files st_legacy
      = Some (Inr (Some 1, True,
             st_legacy\<lparr>heap := prepend_watchmanconfig_to_array (heap st_legacy) (Some 1)\<rparr>))"
    using compute_from_legacy[OF st_legacy_facts(1,2,3,4) strings_is_array[OF st_legacy_facts(5)]]
    by simp
  from marker_first_unless_opted_out[OF st_legacy_facts(1) res] st_legacy_facts(1) show ?thesis
    by (simp add: returned_markers_def res)
qed

text \<open>
  C8, as amended. The opt-out flag is read by \<^verbatim>\<open>cfg_get_bool\<close> with no root: its value is
  the argument layer's when that layer sets the key, otherwise the global layer's,
  otherwise false. In the default branch the returned list follows that value.
\<close>

theorem ignore_flag_layers:
  assumes "(case cfg_get_raw s ''_ignore_watchmanconfig'' (arg_cfg s) of
              Some a \<Rightarrow> Some a
            | None \<Rightarrow> cfg_get_raw s ''_ignore_watchmanconfig'' (global_cfg s)) = p"
    and "p \<noteq> None \<longrightarrow> json_is_boolean (heap s) p"
  shows "cfg_get_bool s None ''_ignore_watchmanconfig'' False = Inr (json_is_true (heap s) p)
       \<and> (cfg_get_bool s None ''enforce_root_files'' False = Inr enf
          \<and> cfg_get_json s None ''root_files'' = None
          \<and> cfg_get_json s None ''root_restrict_files'' = None
          \<longrightarrow> returned_markers (cfg_compute_root_files s)
                = Some (if json_is_true (heap s) p then [''.hg'', ''.git'', ''.svn'']
                        else [''.watchmanconfig'', ''.hg'', ''.git'', ''.svn'']))"
proof -
  have j: "cfg_get_json s None ''_ignore_watchmanconfig'' = p"
    using assms(1) by (simp add: cfg_get_json_unfold cfg_get_raw_eq cong: option.case_cong)
  have b: "cfg_get_bool s None ''_ignore_watchmanconfig'' False = Inr (json_is_true (heap s) p)"
    using assms(2) by (cases p) (simp_all add: cfg_get_bool_def j json_is_true_def)
  from b default_markers[OF b] show ?thesis by blast
qed

theorem ignore_flag_layers_witness:
  "cfg_get_raw st_optout_arg ''_ignore_watchmanconfig'' (arg_cfg st_optout_arg) = Some 2
   \<and> json_is_boolean (heap st_optout_arg) (Some 2)
   \<and> cfg_get_bool st_optout_arg None ''_ignore_watchmanconfig'' False = Inr True
   \<and> returned_markers (cfg_compute_root_files st_optout_arg) = Some [''.hg'', ''.git'', ''.svn'']"
proof -
  have b: "json_is_boolean (heap st_optout_arg) (Some 2)"
    and t: "json_is_true (heap st_optout_arg) (Some 2)"
    using st_optout_arg_facts(8) by (simp_all add: json_is_boolean_def json_is_true_def)
  have p: "(case cfg_get_raw st_optout_arg ''_ignore_watchmanconfig'' (arg_cfg st_optout_arg) of
              Some a \<Rightarrow> Some a
            | None \<Rightarrow> cfg_get_raw st_optout_arg ''_ignore_watchmanconfig''
                        (global_cfg st_optout_arg)) = Some 2"
    by (simp add: st_optout_arg_facts(5))
  from ignore_flag_layers[OF p, of False] b t st_optout_arg_facts(2,3,4,5)
  show ?thesis by simp
qed

text \<open>
  C8 as stated fails: \<open>st_optout_global\<close> and \<open>st_optout_arg\<close> have the same global layer,
  in which the flag is false, and the returned lists differ, because the argument layer
  of the second sets the flag to true.
\<close>

theorem ignore_flag_argument_layer_overrides:
  "global_cfg st_optout_arg = global_cfg st_optout_global
   \<and> cfg_get_raw st_optout_global ''_ignore_watchmanconfig'' (global_cfg st_optout_global) = Some 1
   \<and> cfg_get_raw st_optout_arg ''_ignore_watchmanconfig'' (global_cfg st_optout_arg) = Some 1
   \<and> node_at (heap st_optout_global) (Some 1) = Some JSON_FALSE
   \<and> node_at (heap st_optout_arg) (Some 1) = Some JSON_FALSE
   \<and> returned_markers (cfg_compute_root_files st_optout_global)
       = Some [''.watchmanconfig'', ''.hg'', ''.git'', ''.svn'']
   \<and> returned_markers (cfg_compute_root_files st_optout_arg) = Some [''.hg'', ''.git'', ''.svn'']"
proof -
  have "global_cfg st_optout_arg = global_cfg st_optout_global"
    by (simp add: st_optout_arg_eq st_optout_global_def)
  with default_markers[OF st_optout_global_facts(1,2,3,4)]
       default_markers[OF st_optout_arg_facts(1,2,3,4)]
       st_optout_global_facts(5,6) st_optout_arg_facts(6,7)
  show ?thesis by simp
qed

text \<open>
  C10, as amended. Let both flag reads return, and let \<open>root_files\<close> (or
  \<open>root_restrict_files\<close>, with \<open>root_files\<close> unset and the opt-out flag false) resolve to an
  array of the strings \<open>xs\<close> that does not start with the marker, short enough for the
  32-bit counter also after one more element. Then the call returns, the node it returns
  is the stored one, and the state has changed: that node now holds \<open>xs\<close> behind the
  marker. Both layer pointers are as before, every key of every layer and root view is
  bound to the node it was bound to, no node of the old store other than the array is
  written, every other array of strings reads as before, and a second call returns the
  same array and changes nothing. A key bound to the array node itself is not covered by
  this frame.
\<close>

theorem compute_root_files_mutates_in_place:
  assumes "cfg_get_bool s None ''_ignore_watchmanconfig'' False = Inr ign"
    and "cfg_get_bool s None ''enforce_root_files'' False = Inr enf"
    and "cfg_get_json s None ''root_files'' = ref
         \<or> cfg_get_json s None ''root_files'' = None
           \<and> cfg_get_json s None ''root_restrict_files'' = ref \<and> \<not> ign"
    and "json_array_strings (heap s) ref = Some xs"
    and "xs = [] \<or> hd xs \<noteq> ''.watchmanconfig''"
    and "Suc (length xs) < 2 ^ 32"
  shows "\<exists>s'. cfg_compute_root_files s
               = Some (Inr (ref, if cfg_get_json s None ''root_files'' = ref then enf else True, s'))
       \<and> s' \<noteq> s
       \<and> json_array_strings (heap s') ref = Some (''.watchmanconfig'' # xs)
       \<and> global_cfg s' = global_cfg s \<and> arg_cfg s' = arg_cfg s
       \<and> (\<forall>rt name. cfg_get_json s' rt name = cfg_get_json s rt name)
       \<and> (\<forall>a < length (heap s). Some a \<noteq> ref \<longrightarrow>
             node_at (heap s') (Some a) = node_at (heap s) (Some a))
       \<and> (\<forall>p ys. p \<noteq> ref \<and> json_array_strings (heap s) p = Some ys \<longrightarrow>
             json_array_strings (heap s') p = Some ys)
       \<and> cfg_compute_root_files s'
           = Some (Inr (ref, if cfg_get_json s None ''root_files'' = ref then enf else True, s'))"
proof -
  from strings_ref[OF assms(4)] obtain r es where
    r: "ref = Some r" and n: "node_at (heap s) (Some r) = Some (JSON_ARRAY es)" by blast
  define h' where "h' = prepend_watchmanconfig_to_array (heap s) (Some r)"
  define t where "t = s\<lparr>heap := h'\<rparr>"
  define e where "e = (if cfg_get_json s None ''root_files'' = ref then enf else True)"
  have ht: "heap t = h'" by (simp add: t_def)
  have old: "json_array_strings (heap s) (Some r) = Some xs" using assms(4) r by simp
  have len: "length xs < 2 ^ 32" using assms(6) by simp
  have arr: "is_array_of_strings (heap s) (Some r) = Some True"
    using old len by (rule strings_is_array)
  have new: "json_array_strings (heap t) (Some r) = Some (''.watchmanconfig'' # xs)"
    using prepend_strings[OF old] spec_ensure_watchmanconfig_first_new[OF assms(5)]
    by (simp add: ht h'_def)
  have len': "length (''.watchmanconfig'' # xs) < 2 ^ 32" using assms(6) by simp
  have arr': "is_array_of_strings (heap t) (Some r) = Some True"
    using new len' by (rule strings_is_array)
  have fixd: "prepend_watchmanconfig_to_array (heap t) (Some r) = heap t"
    using new by (rule prepend_fixed)
  have same: "t\<lparr>heap := heap t\<rparr> = t" by simp
  have gj: "\<And>rt name. cfg_get_json t rt name = cfg_get_json s rt name"
    unfolding t_def h'_def by (rule prepend_cfg_get_json[OF n])
  have f': "cfg_get_bool t None ''_ignore_watchmanconfig'' False = Inr ign"
       "cfg_get_bool t None ''enforce_root_files'' False = Inr enf"
    using assms(1,2) unfolding t_def h'_def by (simp_all add: prepend_cfg_get_bool[OF n])
  have both: "cfg_compute_root_files s = Some (Inr (Some r, e, t))
              \<and> cfg_compute_root_files t = Some (Inr (Some r, e, t))"
    using assms(3)
  proof
    assume rf: "cfg_get_json s None ''root_files'' = ref"
    then have rf0: "cfg_get_json s None ''root_files'' = Some r" by (simp add: r)
    have ee: "e = enf" using rf by (simp add: e_def)
    have 1: "cfg_compute_root_files s = Some (Inr (Some r, enf, t))"
      using compute_from_root_files[OF assms(1,2) rf0 arr] by (simp add: t_def h'_def)
    have rf': "cfg_get_json t None ''root_files'' = Some r" using rf0 by (simp add: gj)
    have 2: "cfg_compute_root_files t = Some (Inr (Some r, enf, t))"
      using compute_from_root_files[OF f' rf' arr'] by (simp only: fixd same)
    from 1 2 ee show ?thesis by simp
  next
    assume lg: "cfg_get_json s None ''root_files'' = None
           \<and> cfg_get_json s None ''root_restrict_files'' = ref \<and> \<not> ign"
    then have nrf: "cfg_get_json s None ''root_files'' = None"
      and lg0: "cfg_get_json s None ''root_restrict_files'' = Some r"
      and ig: "ign = False" by (simp_all add: r)
    have ee: "e = True" using nrf r by (simp add: e_def)
    have 1: "cfg_compute_root_files s = Some (Inr (Some r, True, t))"
      using compute_from_legacy[OF assms(1,2) nrf lg0 arr] by (simp add: t_def h'_def ig)
    have nrf': "cfg_get_json t None ''root_files'' = None" using nrf by (simp add: gj)
    have lg': "cfg_get_json t None ''root_restrict_files'' = Some r" using lg0 by (simp add: gj)
    have 2: "cfg_compute_root_files t = Some (Inr (Some r, True, t))"
      using compute_from_legacy[OF f' nrf' lg' arr'] by (simp add: fixd ig)
    from 1 2 ee show ?thesis by simp
  qed
  have frame: "\<forall>a < length (heap s). Some a \<noteq> ref \<longrightarrow>
                 node_at (heap t) (Some a) = node_at (heap s) (Some a)"
  proof (intro allI impI)
    fix a assume a: "a < length (heap s)" "Some a \<noteq> ref"
    then have "node_at (heap s) (Some a) \<noteq> None" by (simp add: node_at_def)
    with prepend_frame[OF n, of "Some a"] a(2)
    show "node_at (heap t) (Some a) = node_at (heap s) (Some a)"
      by (auto simp: ht h'_def r)
  qed
  have vals: "\<forall>p ys. p \<noteq> ref \<and> json_array_strings (heap s) p = Some ys \<longrightarrow>
                json_array_strings (heap t) p = Some ys"
    using prepend_strings_other[OF n] by (simp add: ht h'_def r)
  have layers: "global_cfg t = global_cfg s \<and> arg_cfg t = arg_cfg s" by (simp add: t_def)
  have changed: "t \<noteq> s"
  proof
    assume "t = s"
    with new old show False by simp
  qed
  from both changed new frame vals layers gj
  have "cfg_compute_root_files s = Some (Inr (ref, e, t))
       \<and> t \<noteq> s
       \<and> json_array_strings (heap t) ref = Some (''.watchmanconfig'' # xs)
       \<and> global_cfg t = global_cfg s \<and> arg_cfg t = arg_cfg s
       \<and> (\<forall>rt name. cfg_get_json t rt name = cfg_get_json s rt name)
       \<and> (\<forall>a < length (heap s). Some a \<noteq> ref \<longrightarrow>
             node_at (heap t) (Some a) = node_at (heap s) (Some a))
       \<and> (\<forall>p ys. p \<noteq> ref \<and> json_array_strings (heap s) p = Some ys \<longrightarrow>
             json_array_strings (heap t) p = Some ys)
       \<and> cfg_compute_root_files t = Some (Inr (ref, e, t))"
    by (simp add: r)
  then show ?thesis unfolding e_def by (rule exI[of _ t])
qed

theorem compute_root_files_mutates_in_place_witness:
  "(\<exists>s'. cfg_compute_root_files st_root_files = Some (Inr (Some 1, True, s'))
        \<and> s' \<noteq> st_root_files
        \<and> json_array_strings (heap s') (Some 1) = Some [''.watchmanconfig'', ''foo'']
        \<and> cfg_compute_root_files s' = Some (Inr (Some 1, True, s')))
   \<and> (\<exists>s'. cfg_compute_root_files st_legacy = Some (Inr (Some 1, True, s'))
        \<and> s' \<noteq> st_legacy
        \<and> json_array_strings (heap s') (Some 1) = Some [''.watchmanconfig'', ''bar'']
        \<and> cfg_compute_root_files s' = Some (Inr (Some 1, True, s')))"
proof -
  have a: "cfg_get_json st_root_files None ''root_files'' = Some 1
         \<or> cfg_get_json st_root_files None ''root_files'' = None
           \<and> cfg_get_json st_root_files None ''root_restrict_files'' = Some 1 \<and> \<not> True"
    using st_root_files_facts(3) by simp
  have b: "cfg_get_json st_legacy None ''root_files'' = Some 1
         \<or> cfg_get_json st_legacy None ''root_files'' = None
           \<and> cfg_get_json st_legacy None ''root_restrict_files'' = Some 1 \<and> \<not> False"
    using st_legacy_facts(3,4) by simp
  have fresh: "[''foo''] = [] \<or> hd [''foo''] \<noteq> ''.watchmanconfig''"
    "[''bar''] = [] \<or> hd [''bar''] \<noteq> ''.watchmanconfig''" by simp_all
  have len: "Suc (length [''foo'']) < (2::nat) ^ 32" "Suc (length [''bar'']) < (2::nat) ^ 32"
    by simp_all
  note w1 = compute_root_files_mutates_in_place
         [OF st_root_files_facts(1,2) a st_root_files_facts(4) fresh(1) len(1),
          unfolded st_root_files_facts(3) simp_thms if_True]
  have 1: "\<exists>s'. cfg_compute_root_files st_root_files = Some (Inr (Some 1, True, s'))
        \<and> s' \<noteq> st_root_files
        \<and> json_array_strings (heap s') (Some 1) = Some [''.watchmanconfig'', ''foo'']
        \<and> cfg_compute_root_files s' = Some (Inr (Some 1, True, s'))"
    using w1 by (elim exE conjE) (intro exI conjI, assumption+)
  have ne: "(None = Some (1::nat)) = False" by simp
  note w2 = compute_root_files_mutates_in_place
         [OF st_legacy_facts(1,2) b st_legacy_facts(5) fresh(2) len(2),
          unfolded st_legacy_facts(3) ne if_False]
  have 2: "\<exists>s'. cfg_compute_root_files st_legacy = Some (Inr (Some 1, True, s'))
        \<and> s' \<noteq> st_legacy
        \<and> json_array_strings (heap s') (Some 1) = Some [''.watchmanconfig'', ''bar'']
        \<and> cfg_compute_root_files s' = Some (Inr (Some 1, True, s'))"
    using w2 by (elim exE conjE) (intro exI conjI, assumption+)
  from 1 2 show ?thesis by blast
qed

text \<open>
  C10 as stated fails where the array is shared. In \<open>st_shared\<close> the argument layer's key
  \<open>ignore_vcs\<close> and the global layer's key \<open>root_files\<close> are bound to the same array node.
  One call of \<^verbatim>\<open>cfg_compute_root_files\<close> leaves \<open>st_shared_after\<close>, in which \<open>ignore_vcs\<close>
  reads \<open>[".watchmanconfig", "foo"]\<close> where it read \<open>["foo"]\<close> before: another key, in
  another layer, has changed.
\<close>

theorem shared_array_changes_other_key:
  "cfg_compute_root_files st_shared = Some (Inr (Some 0, False, st_shared_after))
   \<and> cfg_get_json st_shared None ''root_files'' = Some 0
   \<and> cfg_get_json st_shared None ''ignore_vcs'' = Some 0
   \<and> cfg_get_json st_shared_after None ''ignore_vcs'' = Some 0
   \<and> json_array_strings (heap st_shared) (Some 0) = Some [''foo'']
   \<and> json_array_strings (heap st_shared_after) (Some 0) = Some [''.watchmanconfig'', ''foo'']"
  using st_shared_result st_shared_facts(3,4,5,6,7) by simp

end
